theory Spec2Isabelle
  imports Complex_Main "HOL-Library.Word"
begin

section \<open>Conversion of teleoperation episodes to HDF5 containers\<close>

text \<open>
  A shallow embedding of \<^verbatim>\<open>src/data/generate_hdf5.py\<close>: the functions
  \<^verbatim>\<open>create_hdf5_file\<close>, \<^verbatim>\<open>read_video\<close>, \<^verbatim>\<open>process_episode\<close> and \<^verbatim>\<open>main\<close>.
  The file system and the standard output are an explicit state that every function takes
  and returns; a raised Python exception is the left summand of the result.
\<close>

subsection \<open>Path functions of the Python library (\<^verbatim>\<open>posixpath\<close>)\<close>

definition path_join :: "string \<Rightarrow> string \<Rightarrow> string" where
  \<comment> \<open>\<^verbatim>\<open>os.path.join(a, b)\<close>: an absolute \<open>b\<close> discards \<open>a\<close>; a separator is inserted
      unless \<open>a\<close> is empty or ends with one.\<close>
  "path_join a b =
     (if b \<noteq> [] \<and> hd b = CHR ''/'' then b
      else if a = [] \<or> last a = CHR ''/'' then a @ b
      else a @ ''/'' @ b)"

definition basename :: "string \<Rightarrow> string" where
  \<comment> \<open>\<^verbatim>\<open>os.path.basename\<close>: what follows the last separator.\<close>
  "basename p = rev (takeWhile (\<lambda>c. c \<noteq> CHR ''/'') (rev p))"

definition splitext_root :: "string \<Rightarrow> string" where
  \<comment> \<open>\<^verbatim>\<open>os.path.splitext(p)[0]\<close>: the path without the extension that starts at the last
      dot of the final component; leading dots of that component start no extension.\<close>
  "splitext_root p =
     (let name = basename p;
          dir = take (length p - length name) p;
          stem = take (length name - Suc (length (takeWhile (\<lambda>c. c \<noteq> CHR ''.'') (rev name)))) name
      in if CHR ''.'' \<in> set name \<and> list_ex (\<lambda>c. c \<noteq> CHR ''.'') stem then dir @ stem else p)"

definition endswith :: "string \<Rightarrow> string \<Rightarrow> bool" where
  \<comment> \<open>\<^verbatim>\<open>s.endswith(suf)\<close>\<close>
  "endswith s suf = (length suf \<le> length s \<and> drop (length s - length suf) s = suf)"

subsection \<open>Exceptions and printed messages\<close>

datatype assertion =
    StateNot2D                  \<comment> \<open>line 146\<close>
  | ActionNot2D                 \<comment> \<open>line 147\<close>
  | StateColumns                \<comment> \<open>line 150\<close>
  | ActionColumns               \<comment> \<open>line 151\<close>
  | FrameShape "nat list"       \<comment> \<open>line 108, with the shape of the stacked frames\<close>
  | StepMismatch string nat nat \<comment> \<open>line 213: camera key, steps, frame count of that camera\<close>

datatype exn =
    KeyError string "string list"  \<comment> \<open>line 135: the column not found and the available column names\<close>
  | AssertionError assertion
  | ValueError                     \<comment> \<open>numpy: rows or frames of different shapes, or nothing to stack\<close>
  | ArrowError                     \<comment> \<open>\<^verbatim>\<open>pq.ParquetFile\<close>: the path is no readable parquet file\<close>
  | VideoOpenError                 \<comment> \<open>\<^verbatim>\<open>imageio.get_reader\<close>: the path is no video file\<close>
  | VideoDecodeError               \<comment> \<open>the codec fails while frames are read\<close>
  | FileExistsError string         \<comment> \<open>\<^verbatim>\<open>os.makedirs\<close>: the path is a file\<close>
  | NotADirectoryError             \<comment> \<open>\<^verbatim>\<open>os.makedirs\<close>: a path above the path is a file\<close>
  | DictKeyError string            \<comment> \<open>a missing key of a Python dict\<close>

datatype message =
    VideoReadFailed string exn  \<comment> \<open>line 113\<close>
  | AlreadyExists string        \<comment> \<open>line 171\<close>
  | FallbackWarning             \<comment> \<open>line 194\<close>
  | BothPrimaryFailed           \<comment> \<open>line 197\<close>

subsection \<open>Arrays, tables, frames\<close>

text \<open>
  A numpy array is its shape and its items along the first axis: the rows of a matrix,
  the frames of a video.
\<close>

record 'a ndarray =
  shape :: "nat list"
  items :: "'a list"

definition ndim :: "'a ndarray \<Rightarrow> nat" where
  "ndim a = length (shape a)"

text \<open>
  A pyarrow table: every column has \<open>num_rows\<close> cells, and a cell of the columns read here
  is a sequence of numbers.
\<close>

record 'v table =
  num_rows :: nat
  columns :: "(string \<times> (nat \<Rightarrow> 'v list)) list"

definition column_names :: "'v table \<Rightarrow> string list" where
  "column_names t = map fst (columns t)"

fun index_of :: "'k \<Rightarrow> 'k list \<Rightarrow> nat option" where
  \<comment> \<open>\<^verbatim>\<open>list.index\<close>; \<open>None\<close> is the ValueError.\<close>
  "index_of x [] = None"
| "index_of x (y # ys) = (if x = y then Some 0 else map_option Suc (index_of x ys))"

definition to_numpy :: "'v table \<Rightarrow> nat \<Rightarrow> 'v list list" where
  \<comment> \<open>\<^verbatim>\<open>table.columns[idx].to_numpy()\<close>, for an index that \<open>index_of\<close> returned\<close>
  "to_numpy t idx = map (snd (columns t ! idx)) [0..<num_rows t]"

definition np_array :: "'v list list \<Rightarrow> exn + 'v list ndarray" where
  \<comment> \<open>\<^verbatim>\<open>np.array([np.array(item) for item in raw])\<close>: no rows give a 1-D array of shape
      (0,), rows of one length a matrix, rows of different lengths a ValueError.\<close>
  "np_array raw =
     (case raw of
        [] \<Rightarrow> Inr \<lparr>shape = [0], items = []\<rparr>
      | r # _ \<Rightarrow>
          if list_all (\<lambda>y. length y = length r) raw
          then Inr \<lparr>shape = [length raw, length r], items = raw\<rparr>
          else Inl ValueError)"

definition astype :: "('v \<Rightarrow> 'f) \<Rightarrow> 'v list ndarray \<Rightarrow> 'f list ndarray" where
  \<comment> \<open>\<^verbatim>\<open>a.astype(np.float32)\<close>; the conversion of one number is the parameter \<open>f32\<close>.\<close>
  "astype f32 a = \<lparr>shape = shape a, items = map (map f32) (items a)\<rparr>"

text \<open>A decoded frame: three axis lengths and the sample at every index triple.\<close>

record frame =
  fshape :: "nat \<times> nat \<times> nat"
  fpix :: "nat \<Rightarrow> nat \<Rightarrow> nat \<Rightarrow> 8 word"

definition transpose_201 :: "frame \<Rightarrow> frame" where
  \<comment> \<open>\<^verbatim>\<open>frame.transpose(2, 0, 1)\<close>: HWC to CHW\<close>
  "transpose_201 f =
     (case fshape f of (h, w, c) \<Rightarrow> \<lparr>fshape = (c, h, w), fpix = (\<lambda>k i j. fpix f i j k)\<rparr>)"

definition shape_list :: "frame \<Rightarrow> nat list" where
  "shape_list f = (case fshape f of (a, b, c) \<Rightarrow> [a, b, c])"

definition np_stack :: "frame list \<Rightarrow> exn + frame ndarray" where
  \<comment> \<open>\<^verbatim>\<open>np.stack(frames, axis=0)\<close>: needs one frame at least, and one shape.\<close>
  "np_stack frames =
     (case frames of
        [] \<Rightarrow> Inl ValueError
      | f # _ \<Rightarrow>
          if list_all (\<lambda>g. fshape g = fshape f) frames
          then Inr \<lparr>shape = length frames # shape_list f, items = frames\<rparr>
          else Inl ValueError)"

definition np_empty :: "frame ndarray" where
  \<comment> \<open>\<^verbatim>\<open>np.empty((0, 3, 480, 640))\<close>\<close>
  "np_empty = \<lparr>shape = [0, 3, 480, 640], items = []\<rparr>"

definition frame_count :: "'a ndarray \<Rightarrow> nat" where
  \<comment> \<open>\<^verbatim>\<open>a.shape[0]\<close> of an array with one axis at least\<close>
  "frame_count a = hd (shape a)"

subsection \<open>The HDF5 container\<close>

record 'f float_dataset =
  ds_data :: "'f list ndarray"
  ds_names :: "string list"

record camera_dataset =
  cam_data :: "frame ndarray"
  video_fps :: real
  video_height :: nat
  video_width :: nat
  video_channels :: nat
  video_codec :: string
  video_pix_fmt :: string
  video_is_depth_map :: bool
  has_audio :: bool

record 'f hdf5_file =
  codebase_version :: string
  robot_type :: string
  obs_qpos :: "'f float_dataset"                    \<comment> \<open>\<^verbatim>\<open>/observation/qpos\<close>\<close>
  obs_images :: "(string \<times> camera_dataset) list"   \<comment> \<open>\<^verbatim>\<open>/observation/images/<cam>\<close>, in creation order\<close>
  action_ds :: "'f float_dataset"                   \<comment> \<open>\<^verbatim>\<open>/action\<close>\<close>

record 'f episode_data =
  qpos :: "'f list ndarray"
  action :: "'f list ndarray"
  images :: "(string \<times> frame ndarray) list"   \<comment> \<open>a dict, in insertion order\<close>

definition dict_set :: "('k \<times> 'x) list \<Rightarrow> 'k \<Rightarrow> 'x \<Rightarrow> ('k \<times> 'x) list" where
  \<comment> \<open>\<^verbatim>\<open>d[k] = x\<close>: a present key keeps its place, a new key goes last.\<close>
  "dict_set d k x =
     (if k \<in> fst ` set d then map (\<lambda>(k', x'). if k' = k then (k', x) else (k', x')) d
      else d @ [(k, x)])"

subsection \<open>The file system and the standard output\<close>

datatype video = Undecodable | Frames "frame list"

datatype ('v, 'f) node =
    Dir
  | Parquet "'v table"
  | Mp4 video
  | Hdf5 "'f hdf5_file"
  | Hdf5_incomplete     \<comment> \<open>a container whose writing was interrupted by an exception\<close>
  | Other_file

record ('v, 'f) world =
  fs :: "string \<Rightarrow> ('v, 'f) node option"
  stdout :: "message list"

definition print :: "message \<Rightarrow> ('v, 'f) world \<Rightarrow> ('v, 'f) world" where
  "print m w = w\<lparr>stdout := stdout w @ [m]\<rparr>"

definition path_exists :: "('v, 'f) world \<Rightarrow> string \<Rightarrow> bool" where
  \<comment> \<open>\<^verbatim>\<open>os.path.exists\<close>\<close>
  "path_exists w p = (fs w p \<noteq> None)"

definition is_file :: "('v, 'f) node option \<Rightarrow> bool" where
  \<comment> \<open>the path exists and is no directory\<close>
  "is_file n = (case n of None \<Rightarrow> False | Some Dir \<Rightarrow> False | Some _ \<Rightarrow> True)"

fun ancestors_aux :: "string \<Rightarrow> string \<Rightarrow> string list" where
  "ancestors_aux acc [] = []"
| "ancestors_aux acc (c # cs) =
     (if c = CHR ''/'' \<and> acc \<noteq> [] \<and> last acc \<noteq> CHR ''/'' then [acc] else [])
       @ ancestors_aux (acc @ [c]) cs"

definition ancestors :: "string \<Rightarrow> string list" where
  \<comment> \<open>The directories above a path, outermost first: the prefixes of the path that end
      before a separator. The root is none of them: it always exists.\<close>
  "ancestors p = ancestors_aux [] p"

definition after_makedirs :: "string \<Rightarrow> ('v, 'f) world \<Rightarrow> ('v, 'f) world" where
  \<comment> \<open>the state after a \<^verbatim>\<open>makedirs\<close> that succeeds: the path and the paths above it are
      directories\<close>
  "after_makedirs p w =
     w\<lparr>fs := (\<lambda>q. if q \<in> set (ancestors p @ [p]) then Some Dir else fs w q)\<rparr>"

definition makedirs :: "string \<Rightarrow> ('v, 'f) world \<Rightarrow> exn + ('v, 'f) world" where
  \<comment> \<open>\<^verbatim>\<open>os.makedirs(p, exist_ok=True)\<close>: makes the directory \<open>p\<close> and the missing
      directories above it. When a path above \<open>p\<close> is a file it raises NotADirectoryError,
      when \<open>p\<close> itself is a file it raises FileExistsError; in both cases nothing is made.
      Paths are compared as they are spelled; permissions are not part of the state.\<close>
  "makedirs p w =
     (if list_ex (\<lambda>a. is_file (fs w a)) (ancestors p) then Inl NotADirectoryError
      else if is_file (fs w p) then Inl (FileExistsError p)
      else Inr (after_makedirs p w))"

definition read_parquet :: "('v, 'f) node option \<Rightarrow> exn + 'v table" where
  \<comment> \<open>\<^verbatim>\<open>pq.ParquetFile(path).read()\<close>, lines 121-123\<close>
  "read_parquet n = (case n of Some (Parquet t) \<Rightarrow> Inr t | _ \<Rightarrow> Inl ArrowError)"

subsection \<open>\<^verbatim>\<open>create_hdf5_file\<close>, lines 9-83\<close>

definition joint_names :: "string list" where
  "joint_names =
     [''kLeftShoulderPitch'', ''kLeftShoulderRoll'', ''kLeftShoulderYaw'',
      ''kLeftElbow'', ''kLeftWristRoll'', ''kLeftWristPitch'', ''kLeftWristYaw'',
      ''kRightShoulderPitch'', ''kRightShoulderRoll'', ''kRightShoulderYaw'',
      ''kRightElbow'', ''kRightWristRoll'', ''kRightWristPitch'', ''kRightWristYaw'',
      ''kLeftHandThumb0'', ''kLeftHandThumb1'', ''kLeftHandThumb2'',
      ''kLeftHandMiddle0'', ''kLeftHandMiddle1'', ''kLeftHandIndex0'',
      ''kLeftHandIndex1'', ''kRightHandThumb0'', ''kRightHandThumb1'',
      ''kRightHandThumb2'', ''kRightHandIndex0'', ''kRightHandIndex1'',
      ''kRightHandMiddle0'', ''kRightHandMiddle1'']"

definition written_cameras :: "string list" where
  \<comment> \<open>the list of the loop of lines 58-59\<close>
  "written_cameras = [''cam_right_high'', ''cam_left_wrist'', ''cam_right_wrist'']"

definition camera_ds :: "frame ndarray \<Rightarrow> camera_dataset" where
  \<comment> \<open>lines 60-74\<close>
  "camera_ds a =
     \<lparr>cam_data = a, video_fps = 30, video_height = 480, video_width = 640,
      video_channels = 3, video_codec = ''av1'', video_pix_fmt = ''yuv420p'',
      video_is_depth_map = False, has_audio = False\<rparr>"

fun camera_datasets :: "(string \<times> frame ndarray) list \<Rightarrow> string list \<Rightarrow> exn + (string \<times> camera_dataset) list" where
  \<comment> \<open>the loop of lines 58-74; a key missing from the dict raises\<close>
  "camera_datasets imgs [] = Inr []"
| "camera_datasets imgs (cam_name # rest) =
     (case map_of imgs cam_name of
        None \<Rightarrow> Inl (DictKeyError cam_name)
      | Some a \<Rightarrow>
          (case camera_datasets imgs rest of
             Inl e \<Rightarrow> Inl e
           | Inr ds \<Rightarrow> Inr ((cam_name, camera_ds a) # ds)))"

definition create_hdf5_file ::
  "string \<Rightarrow> 'f episode_data \<Rightarrow> ('v, 'f) world \<Rightarrow> ('v, 'f) world \<times> (exn + unit)" where
  \<comment> \<open>The file is created when it is opened (mode \<^verbatim>\<open>'w'\<close>); an exception inside the
      \<^verbatim>\<open>with\<close> block leaves it incomplete. Compression and chunking are storage options
      and not part of the content.\<close>
  "create_hdf5_file output_path episode_data w =
     (case camera_datasets (images episode_data) written_cameras of
        Inl e \<Rightarrow> (w\<lparr>fs := (fs w)(output_path \<mapsto> Hdf5_incomplete)\<rparr>, Inl e)
      | Inr cams \<Rightarrow>
          (w\<lparr>fs := (fs w)(output_path \<mapsto> Hdf5
              \<lparr>codebase_version = ''v2.0'', robot_type = ''Unitree_G1'',
               obs_qpos = \<lparr>ds_data = qpos episode_data, ds_names = joint_names\<rparr>,
               obs_images = cams,
               action_ds = \<lparr>ds_data = action episode_data, ds_names = joint_names\<rparr>\<rparr>)\<rparr>,
           Inr ()))"

subsection \<open>\<^verbatim>\<open>read_video\<close>, lines 88-114\<close>

definition read_video_try :: "('v, 'f) node option \<Rightarrow> exn + frame ndarray" where
  \<comment> \<open>the body of the \<^verbatim>\<open>try\<close>, lines 91-110\<close>
  "read_video_try n =
     (case n of
        Some (Mp4 (Frames decoded)) \<Rightarrow>
          (case np_stack (map transpose_201 decoded) of
             Inl e \<Rightarrow> Inl e
           | Inr frames_array \<Rightarrow>
               if tl (shape frames_array) = [3, 480, 640] then Inr frames_array
               else Inl (AssertionError (FrameShape (shape frames_array))))
      | Some (Mp4 Undecodable) \<Rightarrow> Inl VideoDecodeError
      | _ \<Rightarrow> Inl VideoOpenError)"

definition read_video :: "string \<Rightarrow> ('v, 'f) world \<Rightarrow> ('v, 'f) world \<times> frame ndarray" where
  \<comment> \<open>the \<^verbatim>\<open>except Exception\<close> of lines 112-114 prints and returns the empty array\<close>
  "read_video video_path w =
     (case read_video_try (fs w video_path) of
        Inl e \<Rightarrow> (print (VideoReadFailed video_path e) w, np_empty)
      | Inr frames_array \<Rightarrow> (w, frames_array))"

subsection \<open>\<^verbatim>\<open>process_episode\<close>, lines 117-228\<close>

definition state_col_name :: string where
  "state_col_name = ''observation.state''"

definition action_col_name :: string where
  "action_col_name = ''action''"

definition load_arrays :: "('v \<Rightarrow> 'f) \<Rightarrow> 'v table \<Rightarrow> exn + ('f list ndarray \<times> 'f list ndarray)" where
  \<comment> \<open>lines 124-155\<close>
  "load_arrays f32 t =
     (let names = column_names t in
      case index_of state_col_name names of
        None \<Rightarrow> Inl (KeyError state_col_name names)
      | Some state_idx \<Rightarrow>
      (case index_of action_col_name names of
        None \<Rightarrow> Inl (KeyError action_col_name names)
      | Some action_idx \<Rightarrow>
      (case np_array (to_numpy t state_idx) of
        Inl e \<Rightarrow> Inl e
      | Inr state_array \<Rightarrow>
      (case np_array (to_numpy t action_idx) of
        Inl e \<Rightarrow> Inl e
      | Inr action_array \<Rightarrow>
          if ndim state_array \<noteq> 2 then Inl (AssertionError StateNot2D)
          else if ndim action_array \<noteq> 2 then Inl (AssertionError ActionNot2D)
          else if shape state_array ! 1 \<noteq> 28 then Inl (AssertionError StateColumns)
          else if shape action_array ! 1 \<noteq> 28 then Inl (AssertionError ActionColumns)
          else Inr (astype f32 state_array, astype f32 action_array)))))"

definition video_path_of :: "string \<Rightarrow> string \<Rightarrow> string \<Rightarrow> string" where
  \<comment> \<open>\<^verbatim>\<open>os.path.join(video_root_dir, 'observation.images.<cam>', f"{episode_name}.mp4")\<close>\<close>
  "video_path_of video_root_dir cam_name episode_name =
     path_join (path_join video_root_dir (''observation.images.'' @ cam_name)) (episode_name @ ''.mp4'')"

definition read_primary ::
  "string \<Rightarrow> string \<Rightarrow> ('v, 'f) world \<Rightarrow> ('v, 'f) world \<times> frame ndarray option" where
  \<comment> \<open>lines 174-198; \<open>None\<close> is the \<^verbatim>\<open>return\<close> of line 198\<close>
  "read_primary video_root_dir episode_name w =
     (case read_video (video_path_of video_root_dir ''cam_right_high'' episode_name) w of
        (w1, right_video_data) \<Rightarrow>
          if frame_count right_video_data > 0 then (w1, Some right_video_data)
          else
            (case read_video (video_path_of video_root_dir ''cam_left_high'' episode_name) w1 of
               (w2, left_video_data) \<Rightarrow>
                 if frame_count left_video_data > 0
                 then (print FallbackWarning w2, Some left_video_data)
                 else (print BothPrimaryFailed w2, None)))"

fun read_wrists ::
  "string \<Rightarrow> string \<Rightarrow> string list \<Rightarrow> (string \<times> frame ndarray) list \<Rightarrow> ('v, 'f) world
     \<Rightarrow> ('v, 'f) world \<times> (string \<times> frame ndarray) list" where
  \<comment> \<open>the loop of lines 201-208\<close>
  "read_wrists video_root_dir episode_name [] imgs w = (w, imgs)"
| "read_wrists video_root_dir episode_name (cam_name # rest) imgs w =
     (case read_video (video_path_of video_root_dir cam_name episode_name) w of
        (w1, a) \<Rightarrow> read_wrists video_root_dir episode_name rest (dict_set imgs cam_name a) w1)"

fun check_steps :: "nat \<Rightarrow> (string \<times> frame ndarray) list \<Rightarrow> exn + unit" where
  \<comment> \<open>the loop of lines 212-214\<close>
  "check_steps steps [] = Inr ()"
| "check_steps steps ((cam_name, a) # rest) =
     (if frame_count a = steps then check_steps steps rest
      else Inl (AssertionError (StepMismatch cam_name steps (frame_count a))))"

definition collect_images ::
  "string \<Rightarrow> string \<Rightarrow> (string \<times> frame ndarray) list \<Rightarrow> ('v, 'f) world
     \<Rightarrow> ('v, 'f) world \<times> (string \<times> frame ndarray) list option" where
  \<comment> \<open>lines 174-208: the dict of camera arrays, or \<open>None\<close> for the \<^verbatim>\<open>return\<close> of line 198\<close>
  "collect_images video_root_dir episode_name imgs w =
     (case read_primary video_root_dir episode_name w of
        (w1, None) \<Rightarrow> (w1, None)
      | (w1, Some primary) \<Rightarrow>
          (case read_wrists video_root_dir episode_name [''cam_left_wrist'', ''cam_right_wrist'']
                  (dict_set imgs ''cam_right_high'' primary) w1 of
             (w2, imgs') \<Rightarrow> (w2, Some imgs')))"

definition decode_and_write ::
  "string \<Rightarrow> string \<Rightarrow> string \<Rightarrow> 'f episode_data \<Rightarrow> ('v, 'f) world
     \<Rightarrow> ('v, 'f) world \<times> (exn + unit)" where
  \<comment> \<open>lines 174-228, what follows the existence check\<close>
  "decode_and_write video_root_dir base_output_dir episode_name episode_data w =
     (case collect_images video_root_dir episode_name (images episode_data) w of
        (w1, None) \<Rightarrow> (w1, Inr ())
      | (w2, Some imgs) \<Rightarrow>
          (case check_steps (frame_count (qpos episode_data)) imgs of
             Inl e \<Rightarrow> (w2, Inl e)
           | Inr _ \<Rightarrow>
               let episode_output_dir = path_join base_output_dir episode_name in
               (case makedirs episode_output_dir w2 of
                  Inl e \<Rightarrow> (w2, Inl e)
                | Inr w3 \<Rightarrow>
                    create_hdf5_file
                      (path_join episode_output_dir (episode_name @ ''.hdf5''))
                      (episode_data\<lparr>images := imgs\<rparr>) w3)))"

definition process_episode ::
  "('v \<Rightarrow> 'f) \<Rightarrow> string \<Rightarrow> string \<Rightarrow> string \<Rightarrow> ('v, 'f) world \<Rightarrow> ('v, 'f) world \<times> (exn + unit)" where
  "process_episode f32 parquet_path video_root_dir base_output_dir w =
     (let episode_name = splitext_root (basename parquet_path) in
      case read_parquet (fs w parquet_path) of
        Inl e \<Rightarrow> (w, Inl e)
      | Inr t \<Rightarrow>
      (case load_arrays f32 t of
        Inl e \<Rightarrow> (w, Inl e)
      | Inr (state_array, action_array) \<Rightarrow>
          let episode_data = \<lparr>qpos = state_array, action = action_array, images = []\<rparr>;
              episode_output_dir = path_join base_output_dir episode_name
          in
          (case makedirs episode_output_dir w of
             Inl e \<Rightarrow> (w, Inl e)
           | Inr w1 \<Rightarrow>
               let output_path = path_join episode_output_dir (episode_name @ ''.hdf5'') in
               if path_exists w1 output_path
               then (print (AlreadyExists output_path) w1, Inr ())
               else decode_and_write video_root_dir base_output_dir episode_name episode_data w1)))"

subsection \<open>\<^verbatim>\<open>main\<close>, lines 230-239\<close>

definition data_dir :: string where
  "data_dir = ''/media/hsh/data/G1_ObjectPlacement_Dataset/data/chunk-000''"

definition video_root :: string where
  "video_root = ''/media/hsh/data/G1_ObjectPlacement_Dataset/videos/chunk-000''"

definition base_output :: string where
  "base_output = ''/media/hsh/data/G1_ObjectPlacement_Dataset/outputs''"

fun main :: "('v \<Rightarrow> 'f) \<Rightarrow> string list \<Rightarrow> ('v, 'f) world \<Rightarrow> ('v, 'f) world \<times> (exn + unit)" where
  \<comment> \<open>The loop over \<^verbatim>\<open>os.listdir(data_dir)\<close>, whose result is the list argument. No
      exception is handled: the first one ends the loop.\<close>
  "main f32 [] w = (w, Inr ())"
| "main f32 (parquet_file # rest) w =
     (if endswith parquet_file ''.parquet''
      then
        (case process_episode f32 (path_join data_dir parquet_file) video_root base_output w of
           (w1, Inl e) \<Rightarrow> (w1, Inl e)
         | (w1, Inr _) \<Rightarrow> main f32 rest w1)
      else main f32 rest w)"

subsection \<open>Names derived in \<^verbatim>\<open>process_episode\<close>\<close>

definition episode_name_of :: "string \<Rightarrow> string" where
  \<comment> \<open>line 120\<close>
  "episode_name_of parquet_path = splitext_root (basename parquet_path)"

definition episode_dir :: "string \<Rightarrow> string \<Rightarrow> string" where
  \<comment> \<open>lines 165 and 218\<close>
  "episode_dir base_output_dir parquet_path = path_join base_output_dir (episode_name_of parquet_path)"

definition container_path :: "string \<Rightarrow> string \<Rightarrow> string" where
  \<comment> \<open>lines 167 and 223\<close>
  "container_path base_output_dir parquet_path =
     path_join (episode_dir base_output_dir parquet_path) (episode_name_of parquet_path @ ''.hdf5'')"

definition decoded :: "('v, 'f) node option \<Rightarrow> frame ndarray" where
  \<comment> \<open>what \<^verbatim>\<open>read_video\<close> returns for the file at a path\<close>
  "decoded n = (case read_video_try n of Inl e \<Rightarrow> np_empty | Inr a \<Rightarrow> a)"

definition chain_ok :: "(string \<Rightarrow> ('v, 'f) node option) \<Rightarrow> string \<Rightarrow> bool" where
  \<comment> \<open>the path and the paths above it are directories\<close>
  "chain_ok F p = list_all (\<lambda>a. F a = Some Dir) (ancestors p @ [p])"

definition three_cams :: "frame ndarray \<Rightarrow> frame ndarray \<Rightarrow> frame ndarray \<Rightarrow> (string \<times> frame ndarray) list" where
  \<comment> \<open>the dict of camera arrays after lines 174-208, in insertion order\<close>
  "three_cams x y z = [(''cam_right_high'', x), (''cam_left_wrist'', y), (''cam_right_wrist'', z)]"

definition stored_images :: "string \<Rightarrow> string \<Rightarrow> (string \<Rightarrow> ('v, 'f) node option) \<Rightarrow> (string \<times> frame ndarray) list option" where
  \<comment> \<open>what \<^verbatim>\<open>collect_images\<close> returns for an empty dict, as a function of the file system\<close>
  "stored_images video_root_dir episode_name F =
     (let right_video_data = decoded (F (video_path_of video_root_dir ''cam_right_high'' episode_name));
          left_video_data = decoded (F (video_path_of video_root_dir ''cam_left_high'' episode_name));
          lw = decoded (F (video_path_of video_root_dir ''cam_left_wrist'' episode_name));
          rw = decoded (F (video_path_of video_root_dir ''cam_right_wrist'' episode_name))
      in if 0 < frame_count right_video_data then Some (three_cams right_video_data lw rw)
         else if 0 < frame_count left_video_data then Some (three_cams left_video_data lw rw)
         else None)"

definition container_of :: "'f episode_data \<Rightarrow> 'f hdf5_file" where
  \<comment> \<open>the content that \<^verbatim>\<open>create_hdf5_file\<close> writes when every camera key is present\<close>
  "container_of ed =
     \<lparr>codebase_version = ''v2.0'', robot_type = ''Unitree_G1'',
      obs_qpos = \<lparr>ds_data = qpos ed, ds_names = joint_names\<rparr>,
      obs_images = map (\<lambda>(k, a). (k, camera_ds a)) (images ed),
      action_ds = \<lparr>ds_data = action ed, ds_names = joint_names\<rparr>\<rparr>"

definition written_fs ::
  "string \<Rightarrow> string \<Rightarrow> string \<Rightarrow> 'f episode_data \<Rightarrow> (string \<Rightarrow> ('v, 'f) node option) \<Rightarrow> (string \<Rightarrow> ('v, 'f) node option)" where
  \<comment> \<open>the file system after \<^verbatim>\<open>decode_and_write\<close>, as a function of the one before\<close>
  "written_fs vr out n ed F =
     (case stored_images vr n F of
        None \<Rightarrow> F
      | Some imgs \<Rightarrow>
          (case check_steps (frame_count (qpos ed)) imgs of
             Inl e \<Rightarrow> F
           | Inr _ \<Rightarrow> F(out \<mapsto> Hdf5 (container_of (ed\<lparr>images := imgs\<rparr>)))))"

definition written_result ::
  "string \<Rightarrow> string \<Rightarrow> 'f episode_data \<Rightarrow> (string \<Rightarrow> ('v, 'f) node option) \<Rightarrow> exn + unit" where
  \<comment> \<open>the result of \<^verbatim>\<open>decode_and_write\<close>, as a function of the file system\<close>
  "written_result vr n ed F =
     (case stored_images vr n F of
        None \<Rightarrow> Inr ()
      | Some imgs \<Rightarrow>
          (case check_steps (frame_count (qpos ed)) imgs of
             Inl e \<Rightarrow> Inl e
           | Inr _ \<Rightarrow> Inr ()))"

subsection \<open>Concrete episodes, for the worked examples\<close>

definition good_frame :: frame where
  "good_frame = \<lparr>fshape = (480, 640, 3), fpix = (\<lambda>i j k. 0)\<rparr>"

definition good_table :: "int table" where
  "good_table = \<lparr>num_rows = 2, columns =
     [(''timestamp'', \<lambda>i. [0]), (''observation.state'', \<lambda>i. replicate 28 0),
      (''action'', \<lambda>i. replicate 28 1)]\<rparr>"

definition no_action_table :: "int table" where
  "no_action_table = \<lparr>num_rows = 2, columns =
     [(''timestamp'', \<lambda>i. [0]), (''observation.state'', \<lambda>i. replicate 28 0)]\<rparr>"

definition good_state :: "int list ndarray" where
  "good_state = \<lparr>shape = [2, 28], items = [replicate 28 0, replicate 28 0]\<rparr>"

definition good_action :: "int list ndarray" where
  "good_action = \<lparr>shape = [2, 28], items = [replicate 28 1, replicate 28 1]\<rparr>"

definition two_frames :: "(int, int) node" where
  "two_frames = Mp4 (Frames [good_frame, good_frame])"

definition two_decoded :: "frame ndarray" where
  "two_decoded = \<lparr>shape = [2, 3, 480, 640], items = [transpose_201 good_frame, transpose_201 good_frame]\<rparr>"

definition ep1_path :: string where
  "ep1_path = path_join data_dir ''ep1.parquet''"

definition bad_path :: string where
  "bad_path = path_join data_dir ''bad.parquet''"

definition world_ok :: "(int, int) world" where
  "world_ok = \<lparr>fs = [ep1_path \<mapsto> Parquet good_table,
       video_path_of video_root ''cam_right_high'' ''ep1'' \<mapsto> two_frames,
       video_path_of video_root ''cam_left_wrist'' ''ep1'' \<mapsto> two_frames,
       video_path_of video_root ''cam_right_wrist'' ''ep1'' \<mapsto> two_frames], stdout = []\<rparr>"

definition world_fallback :: "(int, int) world" where
  "world_fallback = \<lparr>fs = [ep1_path \<mapsto> Parquet good_table,
       video_path_of video_root ''cam_left_high'' ''ep1'' \<mapsto> two_frames,
       video_path_of video_root ''cam_left_wrist'' ''ep1'' \<mapsto> two_frames,
       video_path_of video_root ''cam_right_wrist'' ''ep1'' \<mapsto> two_frames], stdout = []\<rparr>"

definition world_wrist_missing :: "(int, int) world" where
  "world_wrist_missing = \<lparr>fs = [ep1_path \<mapsto> Parquet good_table,
       video_path_of video_root ''cam_right_high'' ''ep1'' \<mapsto> two_frames,
       video_path_of video_root ''cam_right_wrist'' ''ep1'' \<mapsto> two_frames], stdout = []\<rparr>"

definition world_no_primary :: "(int, int) world" where
  "world_no_primary = \<lparr>fs = [ep1_path \<mapsto> Parquet good_table,
       video_path_of video_root ''cam_left_wrist'' ''ep1'' \<mapsto> two_frames,
       video_path_of video_root ''cam_right_wrist'' ''ep1'' \<mapsto> two_frames], stdout = []\<rparr>"

definition world_no_action :: "(int, int) world" where
  "world_no_action = \<lparr>fs = [ep1_path \<mapsto> Parquet no_action_table], stdout = []\<rparr>"

definition world_batch :: "(int, int) world" where
  "world_batch = world_ok\<lparr>fs := (fs world_ok)(bad_path \<mapsto> Parquet no_action_table)\<rparr>"

definition stale_container :: "int hdf5_file" where
  "stale_container = container_of \<lparr>qpos = good_state, action = good_action, images = []\<rparr>"

definition world_stale :: "(int, int) world" where
  "world_stale = \<lparr>fs = [ep1_path \<mapsto> Parquet no_action_table,
       episode_dir base_output ep1_path \<mapsto> Dir,
       container_path base_output ep1_path \<mapsto> Hdf5 stale_container], stdout = []\<rparr>"


definition ok_container :: "int hdf5_file" where
  "ok_container = container_of \<lparr>qpos = good_state, action = good_action,
     images = three_cams two_decoded two_decoded two_decoded\<rparr>"

definition world_left_short :: "(int, int) world" where
  "world_left_short = world_ok\<lparr>fs := (fs world_ok)
     (video_path_of video_root ''cam_left_high'' ''ep1'' \<mapsto> Mp4 (Frames [good_frame]))\<rparr>"

definition world_blocked :: "(int, int) world" where
  \<comment> \<open>the output root is a regular file\<close>
  "world_blocked = world_ok\<lparr>fs := (fs world_ok)(base_output \<mapsto> Other_file)\<rparr>"

definition extends :: "(string \<Rightarrow> ('v, 'f) node option) \<Rightarrow> (string \<Rightarrow> ('v, 'f) node option) \<Rightarrow> bool" where
  \<comment> \<open>\<open>G\<close> is \<open>F\<close> with new directories and new containers at paths that were free\<close>
  "extends F G \<longleftrightarrow>
     (\<forall>q. G q = F q \<or> (F q = None \<and> (G q = Some Dir \<or> (\<exists>c. G q = Some (Hdf5 c)))))"

section \<open>Properties\<close>

subsection \<open>Tables, arrays and videos\<close>

lemma index_of_None: "index_of x xs = None \<longleftrightarrow> x \<notin> set xs"
  by (induction xs) auto

lemma length_to_numpy: "length (to_numpy t i) = num_rows t"
  by (simp add: to_numpy_def)

lemma np_array_2d:
  assumes "np_array raw = Inr a" "ndim a = 2"
  shows "raw \<noteq> [] \<and> shape a = [length raw, length (hd raw)] \<and> items a = raw"
  using assms by (auto simp: np_array_def ndim_def split: list.splits if_splits)

lemma load_arrays_Inr:
  assumes "load_arrays f32 t = Inr (s, a)"
  shows "shape s = [num_rows t, 28] \<and> shape a = [num_rows t, 28] \<and> 0 < num_rows t
    \<and> length (items s) = num_rows t \<and> length (items a) = num_rows t"
proof -
  from assms obtain i j s0 a0 where
    s0: "np_array (to_numpy t i) = Inr s0" and a0: "np_array (to_numpy t j) = Inr a0"
    and d: "ndim s0 = 2" "ndim a0 = 2" and c: "shape s0 ! 1 = 28" "shape a0 ! 1 = 28"
    and r: "s = astype f32 s0" "a = astype f32 a0"
    by (auto simp: load_arrays_def Let_def split: option.splits sum.splits if_splits)
  have pos: "0 < num_rows t" if "to_numpy t k \<noteq> []" for k
    using that length_to_numpy[of t k] by (cases "num_rows t") auto
  from np_array_2d[OF s0 d(1)] np_array_2d[OF a0 d(2)] c r pos[of i] show ?thesis
    by (auto simp: astype_def length_to_numpy)
qed

lemma load_arrays_KeyError:
  assumes "state_col_name \<notin> set (column_names t) \<or> action_col_name \<notin> set (column_names t)"
  shows "\<exists>c. load_arrays f32 t = Inl (KeyError c (column_names t))
     \<and> (c = state_col_name \<or> c = action_col_name) \<and> c \<notin> set (column_names t)"
proof (cases "state_col_name \<in> set (column_names t)")
  case False
  then have "index_of state_col_name (column_names t) = None" by (simp add: index_of_None)
  with False show ?thesis by (simp add: load_arrays_def)
next
  case True
  then obtain i where i: "index_of state_col_name (column_names t) = Some i"
    using index_of_None[of state_col_name "column_names t"] by (cases "index_of state_col_name (column_names t)") auto
  from True assms have "action_col_name \<notin> set (column_names t)" by simp
  moreover from this have "index_of action_col_name (column_names t) = None" by (simp add: index_of_None)
  ultimately show ?thesis using i by (simp add: load_arrays_def)
qed

lemma fs_print [simp]: "fs (print m w) = fs w"
  by (simp add: print_def)

lemma stdout_print [simp]: "stdout (print m w) = stdout w @ [m]"
  by (simp add: print_def)

lemma read_video_fs [simp]: "fs (fst (read_video p w)) = fs w"
  by (simp add: read_video_def split: sum.splits)

lemma read_video_snd [simp]: "snd (read_video p w) = decoded (fs w p)"
  by (simp add: read_video_def decoded_def split: sum.splits)





subsection \<open>Paths and directories\<close>

lemma set_basename: "CHR ''/'' \<notin> set (basename p)"
  by (auto simp: basename_def dest: set_takeWhileD)

lemma set_basename_sub: "set (basename p) \<subseteq> set p"
  by (auto simp: basename_def dest: set_takeWhileD)

lemma set_splitext_root: "set (splitext_root p) \<subseteq> set p"
  using set_basename_sub[of p] by (auto simp: splitext_root_def Let_def dest!: in_set_takeD)

lemma episode_name_no_slash: "CHR ''/'' \<notin> set (episode_name_of p)"
  using set_splitext_root[of "basename p"] set_basename[of p] by (auto simp: episode_name_of_def)

lemma path_join_longer:
  assumes "CHR ''/'' \<notin> set n" "x \<noteq> CHR ''/''"
  shows "length a < length (path_join a (n @ x # xs))"
  using assms by (cases n) (auto simp: path_join_def)


lemma container_path_longer: "length (episode_dir bo p) < length (container_path bo p)"
proof -
  have "length (episode_dir bo p)
      < length (path_join (episode_dir bo p) (episode_name_of p @ CHR ''.'' # ''hdf5''))"
    by (rule path_join_longer[OF episode_name_no_slash]) simp
  then show ?thesis by (simp add: container_path_def)
qed

lemma container_path_neq_dir: "container_path bo p \<noteq> episode_dir bo p"
  using container_path_longer[of bo p] by auto

lemma ancestors_aux_shorter:
  "a \<in> set (ancestors_aux acc cs) \<Longrightarrow> length a < length acc + length cs"
proof (induction cs arbitrary: acc)
  case Nil
  then show ?case by simp
next
  case (Cons c cs)
  from Cons.prems have "a = acc \<or> a \<in> set (ancestors_aux (acc @ [c]) cs)"
    by (auto split: if_splits)
  then show ?case
  proof
    assume "a = acc"
    then show ?thesis by simp
  next
    assume "a \<in> set (ancestors_aux (acc @ [c]) cs)"
    from Cons.IH[OF this] show ?thesis by simp
  qed
qed

lemma ancestors_shorter: "a \<in> set (ancestors p) \<Longrightarrow> length a < length p"
  using ancestors_aux_shorter[of a "[]" p] by (simp add: ancestors_def)

lemma longer_not_in_chain:
  assumes "length p < length q"
  shows "q \<notin> set (ancestors p @ [p])"
  using assms ancestors_shorter[of q p] by auto

lemma container_not_in_chain:
  "container_path bo p \<notin> set (ancestors (episode_dir bo p) @ [episode_dir bo p])"
  by (rule longer_not_in_chain[OF container_path_longer])

lemma fs_after_makedirs:
  "fs (after_makedirs p w) q = (if q \<in> set (ancestors p @ [p]) then Some Dir else fs w q)"
  by (simp add: after_makedirs_def)

lemma stdout_after_makedirs [simp]: "stdout (after_makedirs p w) = stdout w"
  by (simp add: after_makedirs_def)

lemma makedirs_Inr:
  assumes "makedirs p w = Inr w1"
  shows "w1 = after_makedirs p w"
    and "\<And>a. a \<in> set (ancestors p @ [p]) \<Longrightarrow> \<not> is_file (fs w a)"
  using assms by (auto simp: makedirs_def list_ex_iff split: if_splits)

lemma is_file_iff: "is_file n \<longleftrightarrow> n \<noteq> None \<and> n \<noteq> Some Dir"
  by (auto simp: is_file_def split: option.splits node.splits)

lemma makedirs_stdout: "makedirs d w = Inr w1 \<Longrightarrow> stdout w1 = stdout w"
  by (auto dest: makedirs_Inr(1))

lemma makedirs_made:
  assumes "makedirs p w = Inr w1"
  shows "fs w1 q = (if q \<in> set (ancestors p @ [p]) then Some Dir else fs w q)"
  using makedirs_Inr(1)[OF assms] by (simp add: fs_after_makedirs)

lemma makedirs_longer:
  assumes "makedirs p w = Inr w1" "length p < length q"
  shows "fs w1 q = fs w q"
  using makedirs_made[OF assms(1), of q] longer_not_in_chain[OF assms(2)] by simp

lemma chain_ok_after:
  assumes "makedirs p w = Inr w1"
  shows "chain_ok (fs w1) p"
  using makedirs_made[OF assms] by (simp add: chain_ok_def list_all_iff)

lemma chain_ok_leaf: "chain_ok F p \<Longrightarrow> F p = Some Dir"
  by (simp add: chain_ok_def)

lemma makedirs_noop:
  assumes "chain_ok (fs w) p"
  shows "makedirs p w = Inr w"
proof -
  from assms have d: "\<And>a. a \<in> set (ancestors p @ [p]) \<Longrightarrow> fs w a = Some Dir"
    by (auto simp: chain_ok_def list_all_iff)
  then have nf: "\<not> list_ex (\<lambda>a. is_file (fs w a)) (ancestors p)" "\<not> is_file (fs w p)"
    by (auto simp: list_ex_iff is_file_iff)
  have "(\<lambda>q. if q \<in> set (ancestors p @ [p]) then Some Dir else fs w q) = fs w"
    using d by (intro ext) auto
  then have "after_makedirs p w = w" by (simp add: after_makedirs_def)
  with nf show ?thesis by (simp add: makedirs_def)
qed

lemma makedirs_fs_only:
  assumes "fs w2 = fs w"
  shows "map_sum id fs (makedirs p w2) = map_sum id fs (makedirs p w)"
  unfolding makedirs_def after_makedirs_def assms by simp

subsection \<open>File systems that only grow\<close>

lemma extends_refl: "extends F F"
  by (simp add: extends_def)

lemma extends_trans:
  assumes "extends F G" "extends G H"
  shows "extends F H"
  unfolding extends_def
proof
  fix q
  from assms have f: "G q = F q \<or> (F q = None \<and> (G q = Some Dir \<or> (\<exists>c. G q = Some (Hdf5 c))))"
    and g: "H q = G q \<or> (G q = None \<and> (H q = Some Dir \<or> (\<exists>c. H q = Some (Hdf5 c))))"
    by (simp_all add: extends_def)
  from f g show "H q = F q \<or> (F q = None \<and> (H q = Some Dir \<or> (\<exists>c. H q = Some (Hdf5 c))))"
    by auto
qed

lemma extends_write:
  assumes "F out = None"
  shows "extends F (F(out \<mapsto> Hdf5 c))"
  using assms by (auto simp: extends_def)

lemma extendsD:
  assumes "extends F G"
  shows "G q = F q \<or> (F q = None \<and> (G q = Some Dir \<or> (\<exists>c. G q = Some (Hdf5 c))))"
  using assms by (simp add: extends_def)

lemma extends_kept:
  assumes "extends F G" "F q = Some x"
  shows "G q = Some x"
  using extendsD[OF assms(1), of q] assms(2) by auto

lemma extends_None:
  assumes "extends F G" "G q = None"
  shows "F q = None"
  using extendsD[OF assms(1), of q] assms(2) by auto

lemma decoded_extends:
  assumes "extends F G"
  shows "decoded (G q) = decoded (F q)"
proof -
  from assms have "G q = F q \<or> (F q = None \<and> (G q = Some Dir \<or> (\<exists>c. G q = Some (Hdf5 c))))"
    by (simp add: extends_def)
  then show ?thesis by (auto simp: decoded_def read_video_try_def)
qed

lemma stored_images_extends:
  assumes "extends F G"
  shows "stored_images vr n G = stored_images vr n F"
  unfolding stored_images_def by (simp only: decoded_extends[OF assms])


lemma makedirs_extends:
  assumes "makedirs p w = Inr w1"
  shows "extends (fs w) (fs w1)"
  unfolding extends_def
proof
  fix q
  show "fs w1 q = fs w q \<or> (fs w q = None \<and> (fs w1 q = Some Dir \<or> (\<exists>c. fs w1 q = Some (Hdf5 c))))"
  proof (cases "q \<in> set (ancestors p @ [p])")
    case False
    with makedirs_made[OF assms, of q] show ?thesis by simp
  next
    case True
    from makedirs_Inr(2)[OF assms True] have "fs w q = None \<or> fs w q = Some Dir"
      by (auto simp: is_file_iff)
    with makedirs_made[OF assms, of q] True show ?thesis by auto
  qed
qed

lemma chain_ok_extends:
  assumes "extends F G" "chain_ok F p"
  shows "chain_ok G p"
  using assms extends_kept[OF assms(1)] by (simp add: chain_ok_def list_all_iff)

lemma chain_ok_write:
  assumes "chain_ok F (episode_dir bo p)"
  shows "chain_ok (F(container_path bo p \<mapsto> x)) (episode_dir bo p)"
  using assms container_not_in_chain[of bo p]
  by (auto simp: chain_ok_def list_all_iff)

subsection \<open>The video stage\<close>

lemma read_primary_fs [simp]: "fs (fst (read_primary vr n w)) = fs w"
  by (simp add: read_primary_def case_prod_beta)

lemma read_primary_snd:
  "snd (read_primary vr n w) =
     (if 0 < frame_count (decoded (fs w (video_path_of vr ''cam_right_high'' n)))
      then Some (decoded (fs w (video_path_of vr ''cam_right_high'' n)))
      else if 0 < frame_count (decoded (fs w (video_path_of vr ''cam_left_high'' n)))
      then Some (decoded (fs w (video_path_of vr ''cam_left_high'' n)))
      else None)"
  by (simp add: read_primary_def case_prod_beta)

lemma read_wrists_fs [simp]: "fs (fst (read_wrists vr n cams imgs w)) = fs w"
  by (induction cams arbitrary: imgs w) (simp_all add: case_prod_beta)

lemma read_wrists_snd:
  "snd (read_wrists vr n [''cam_left_wrist'', ''cam_right_wrist''] (dict_set [] ''cam_right_high'' x) w)
     = three_cams x (decoded (fs w (video_path_of vr ''cam_left_wrist'' n)))
                    (decoded (fs w (video_path_of vr ''cam_right_wrist'' n)))"
  by (simp add: case_prod_beta dict_set_def three_cams_def)

lemma collect_images_fs [simp]: "fs (fst (collect_images vr n imgs w)) = fs w"
  by (simp add: collect_images_def case_prod_beta split: option.splits)

lemma collect_images_snd: "snd (collect_images vr n [] w) = stored_images vr n (fs w)"
  by (simp add: collect_images_def case_prod_beta read_primary_snd read_wrists_snd stored_images_def Let_def
      del: read_wrists.simps split: option.splits)

lemma create_hdf5_file_three:
  "create_hdf5_file out (ed\<lparr>images := three_cams x y z\<rparr>) w
     = (w\<lparr>fs := (fs w)(out \<mapsto> Hdf5 (container_of (ed\<lparr>images := three_cams x y z\<rparr>)))\<rparr>, Inr ())"
  by (simp add: create_hdf5_file_def written_cameras_def three_cams_def container_of_def)

lemma stored_images_three:
  assumes "stored_images vr n F = Some imgs"
  shows "\<exists>x. imgs = three_cams x (decoded (F (video_path_of vr ''cam_left_wrist'' n)))
                    (decoded (F (video_path_of vr ''cam_right_wrist'' n))) \<and> 0 < frame_count x"
  using assms by (auto simp: stored_images_def Let_def split: if_splits)


lemma decode_and_write_exact:
  assumes "images ed = []" "chain_ok (fs w) (path_join bo n)"
  shows "fs (fst (decode_and_write vr bo n ed w)) = written_fs vr (path_join (path_join bo n) (n @ ''.hdf5'')) n ed (fs w)"
    and "snd (decode_and_write vr bo n ed w) = written_result vr n ed (fs w)"
proof -
  obtain w2 r where c: "collect_images vr n [] w = (w2, r)" by (cases "collect_images vr n [] w")
  have w2: "fs w2 = fs w" using collect_images_fs[of vr n "[]" w] c by simp
  have r: "r = stored_images vr n (fs w)" using collect_images_snd[of vr n w] c by simp
  have mk: "makedirs (path_join bo n) w2 = Inr w2"
    using assms(2) w2 by (intro makedirs_noop) simp
  show "fs (fst (decode_and_write vr bo n ed w)) = written_fs vr (path_join (path_join bo n) (n @ ''.hdf5'')) n ed (fs w)"
  proof (cases r)
    case None
    with c r w2 assms(1) show ?thesis by (simp add: decode_and_write_def written_fs_def)
  next
    case (Some imgs)
    with r stored_images_three[of vr n "fs w" imgs] obtain x y z where i: "imgs = three_cams x y z" by auto
    with Some c r w2 assms(1) mk show ?thesis
      by (simp add: decode_and_write_def written_fs_def create_hdf5_file_three split: sum.splits)
  qed
  show "snd (decode_and_write vr bo n ed w) = written_result vr n ed (fs w)"
  proof (cases r)
    case None
    with c r w2 assms(1) show ?thesis by (simp add: decode_and_write_def written_result_def)
  next
    case (Some imgs)
    with r stored_images_three[of vr n "fs w" imgs] obtain x y z where i: "imgs = three_cams x y z" by auto
    with Some c r w2 assms(1) mk show ?thesis
      by (simp add: decode_and_write_def written_result_def create_hdf5_file_three split: sum.splits)
  qed
qed

subsection \<open>The outcomes of one episode\<close>

lemma process_episode_read_fail:
  assumes "read_parquet (fs w p) = Inl e"
  shows "process_episode f32 p vr bo w = (w, Inl e)"
  using assms by (simp add: process_episode_def)

lemma process_episode_load_fail:
  assumes "fs w p = Some (Parquet t)" "load_arrays f32 t = Inl e"
  shows "process_episode f32 p vr bo w = (w, Inl e)"
  using assms by (simp add: process_episode_def read_parquet_def)


lemma process_episode_mkdir_fail:
  assumes "fs w p = Some (Parquet t)" "load_arrays f32 t = Inr (s, a)"
    and "makedirs (episode_dir bo p) w = Inl e"
  shows "process_episode f32 p vr bo w = (w, Inl e)"
  using assms
  by (simp add: process_episode_def read_parquet_def episode_dir_def episode_name_of_def)

lemma process_episode_skip:
  assumes "fs w p = Some (Parquet t)" "load_arrays f32 t = Inr (s, a)"
    and "makedirs (episode_dir bo p) w = Inr w1"
    and "fs w (container_path bo p) \<noteq> None"
  shows "process_episode f32 p vr bo w
     = (print (AlreadyExists (container_path bo p)) w1, Inr ())"
proof -
  from makedirs_longer[OF assms(3) container_path_longer] assms(4)
  have "path_exists w1 (container_path bo p)" by (simp add: path_exists_def)
  with assms(1,2,3) show ?thesis
    by (simp add: process_episode_def read_parquet_def episode_dir_def episode_name_of_def
        container_path_def Let_def)
qed

lemma process_episode_run:
  assumes "fs w p = Some (Parquet t)" "load_arrays f32 t = Inr (s, a)"
    and "makedirs (episode_dir bo p) w = Inr w1"
    and "fs w (container_path bo p) = None"
  shows "process_episode f32 p vr bo w
     = decode_and_write vr bo (episode_name_of p) \<lparr>qpos = s, action = a, images = []\<rparr> w1"
proof -
  from makedirs_longer[OF assms(3) container_path_longer] assms(4)
  have "\<not> path_exists w1 (container_path bo p)" by (simp add: path_exists_def)
  with assms(1,2,3) show ?thesis
    by (simp add: process_episode_def read_parquet_def episode_dir_def episode_name_of_def
        container_path_def Let_def)
qed

text \<open>The outcome of an episode that reaches the video stage, in terms of the initial file system.\<close>

lemma process_episode_run_exact:
  assumes "fs w p = Some (Parquet t)" "load_arrays f32 t = Inr (s, a)"
    and "makedirs (episode_dir bo p) w = Inr w1"
    and "fs w (container_path bo p) = None"
  shows "fs (fst (process_episode f32 p vr bo w))
      = (case stored_images vr (episode_name_of p) (fs w) of
           None \<Rightarrow> fs w1
         | Some imgs \<Rightarrow>
             (case check_steps (frame_count s) imgs of
                Inl e \<Rightarrow> fs w1
              | Inr _ \<Rightarrow> (fs w1)(container_path bo p
                   \<mapsto> Hdf5 (container_of \<lparr>qpos = s, action = a, images = imgs\<rparr>))))"
    and "snd (process_episode f32 p vr bo w)
      = (case stored_images vr (episode_name_of p) (fs w) of
           None \<Rightarrow> Inr ()
         | Some imgs \<Rightarrow>
             (case check_steps (frame_count s) imgs of Inl e \<Rightarrow> Inl e | Inr _ \<Rightarrow> Inr ()))"
proof -
  let ?ed = "\<lparr>qpos = s, action = a, images = []\<rparr>"
  have d: "chain_ok (fs w1) (path_join bo (episode_name_of p))"
    using chain_ok_after[OF assms(3)] by (simp add: episode_dir_def)
  have i: "images ?ed = []" by simp
  note ex = decode_and_write_exact[OF i d, of vr]
  have st: "stored_images vr (episode_name_of p) (fs w1) = stored_images vr (episode_name_of p) (fs w)"
    by (rule stored_images_extends[OF makedirs_extends[OF assms(3)]])
  show "fs (fst (process_episode f32 p vr bo w))
      = (case stored_images vr (episode_name_of p) (fs w) of
           None \<Rightarrow> fs w1
         | Some imgs \<Rightarrow>
             (case check_steps (frame_count s) imgs of
                Inl e \<Rightarrow> fs w1
              | Inr _ \<Rightarrow> (fs w1)(container_path bo p
                   \<mapsto> Hdf5 (container_of \<lparr>qpos = s, action = a, images = imgs\<rparr>))))"
    unfolding process_episode_run[OF assms] ex(1) written_fs_def st
    by (simp add: container_path_def episode_dir_def split: option.splits sum.splits)
  show "snd (process_episode f32 p vr bo w)
      = (case stored_images vr (episode_name_of p) (fs w) of
           None \<Rightarrow> Inr ()
         | Some imgs \<Rightarrow>
             (case check_steps (frame_count s) imgs of Inl e \<Rightarrow> Inl e | Inr _ \<Rightarrow> Inr ()))"
    unfolding process_episode_run[OF assms] ex(2) written_result_def st
    by (simp split: option.splits sum.splits)
qed

text \<open>Messages are only appended.\<close>

lemma read_video_stdout: "\<exists>ms. stdout (fst (read_video q w)) = stdout w @ ms"
  by (simp add: read_video_def split: sum.splits)

lemma read_primary_stdout:
  "\<exists>ms. stdout (fst (read_primary vr n w)) = stdout w @ ms
     \<and> (snd (read_primary vr n w) = None \<longrightarrow> ms \<noteq> [] \<and> last ms = BothPrimaryFailed)
     \<and> (snd (read_primary vr n w) \<noteq> None
          \<and> frame_count (decoded (fs w (video_path_of vr ''cam_right_high'' n))) = 0
        \<longrightarrow> FallbackWarning \<in> set ms)"
proof -
  let ?q = "video_path_of vr ''cam_right_high'' n"
  obtain w1 x where r1: "read_video ?q w = (w1, x)" by (cases "read_video ?q w")
  from read_video_stdout[of ?q w] r1 obtain m1 where m1: "stdout w1 = stdout w @ m1" by auto
  have x: "x = decoded (fs w ?q)" using read_video_snd[of ?q w] r1 by simp
  have f1: "fs w1 = fs w" using read_video_fs[of ?q w] r1 by simp
  let ?l = "video_path_of vr ''cam_left_high'' n"
  obtain w2 y where r2: "read_video ?l w1 = (w2, y)" by (cases "read_video ?l w1")
  from read_video_stdout[of ?l w1] r2 obtain m2 where m2: "stdout w2 = stdout w1 @ m2" by auto
  show ?thesis
    using r1 r2 m1 m2 x by (auto simp: read_primary_def)
qed

lemma read_wrists_stdout: "\<exists>ms. stdout (fst (read_wrists vr n cams imgs w)) = stdout w @ ms"
proof (induction cams arbitrary: imgs w)
  case Nil
  then show ?case by simp
next
  case (Cons c cams)
  obtain w1 x where r: "read_video (video_path_of vr c n) w = (w1, x)"
    by (cases "read_video (video_path_of vr c n) w")
  from read_video_stdout[of "video_path_of vr c n" w] r obtain m1 where "stdout w1 = stdout w @ m1" by auto
  moreover from Cons[of "dict_set imgs c x" w1] obtain m2 where
    "stdout (fst (read_wrists vr n cams (dict_set imgs c x) w1)) = stdout w1 @ m2" by auto
  ultimately show ?case using r by simp
qed

lemma collect_images_stdout:
  "\<exists>ms. stdout (fst (collect_images vr n imgs w)) = stdout w @ ms
     \<and> (snd (collect_images vr n imgs w) = None \<longrightarrow> ms \<noteq> [] \<and> last ms = BothPrimaryFailed)
     \<and> (snd (collect_images vr n imgs w) \<noteq> None
          \<and> frame_count (decoded (fs w (video_path_of vr ''cam_right_high'' n))) = 0
        \<longrightarrow> FallbackWarning \<in> set ms)"
proof -
  obtain w1 r where p: "read_primary vr n w = (w1, r)" by (cases "read_primary vr n w")
  from read_primary_stdout[of vr n w] p obtain m1 where
    m1: "stdout w1 = stdout w @ m1"
      "r = None \<longrightarrow> m1 \<noteq> [] \<and> last m1 = BothPrimaryFailed"
      "r \<noteq> None \<and> frame_count (decoded (fs w (video_path_of vr ''cam_right_high'' n))) = 0
        \<longrightarrow> FallbackWarning \<in> set m1" by auto
  show ?thesis
  proof (cases r)
    case None
    with p m1 show ?thesis by (simp add: collect_images_def)
  next
    case (Some x)
    let ?rw = "read_wrists vr n [''cam_left_wrist'', ''cam_right_wrist''] (dict_set imgs ''cam_right_high'' x) w1"
    from read_wrists_stdout[of vr n _ _ w1] obtain m2 where m2: "stdout (fst ?rw) = stdout w1 @ m2" by blast
    from Some p m1 m2 show ?thesis
      by (auto simp: collect_images_def case_prod_beta simp del: read_wrists.simps)
  qed
qed

lemma create_hdf5_file_stdout [simp]: "stdout (fst (create_hdf5_file out ed w)) = stdout w"
  by (simp add: create_hdf5_file_def split: sum.splits)

lemma decode_and_write_stdout:
  "stdout (fst (decode_and_write vr bo n ed w)) = stdout (fst (collect_images vr n (images ed) w))"
proof -
  obtain w2 r where c: "collect_images vr n (images ed) w = (w2, r)"
    by (cases "collect_images vr n (images ed) w")
  show ?thesis
  proof (cases r)
    case None
    with c show ?thesis by (simp add: decode_and_write_def)
  next
    case (Some imgs)
    show ?thesis
    proof (cases "check_steps (frame_count (qpos ed)) imgs")
      case (Inl e)
      with Some c show ?thesis by (simp add: decode_and_write_def)
    next
      case (Inr u)
      show ?thesis
      proof (cases "makedirs (path_join bo n) w2")
        case (Inl e)
        with Inr Some c show ?thesis by (simp add: decode_and_write_def)
      next
        case mk: (Inr w3)
        from makedirs_stdout[OF mk] Inr Some c mk show ?thesis by (simp add: decode_and_write_def)
      qed
    qed
  qed
qed

lemma stored_images_None:
  "stored_images vr n F = None
     \<longleftrightarrow> frame_count (decoded (F (video_path_of vr ''cam_right_high'' n))) = 0
       \<and> frame_count (decoded (F (video_path_of vr ''cam_left_high'' n))) = 0"
  by (simp add: stored_images_def Let_def)

lemma stored_images_right:
  assumes "0 < frame_count (decoded (F (video_path_of vr ''cam_right_high'' n)))"
  shows "stored_images vr n F = Some (three_cams (decoded (F (video_path_of vr ''cam_right_high'' n)))
     (decoded (F (video_path_of vr ''cam_left_wrist'' n))) (decoded (F (video_path_of vr ''cam_right_wrist'' n))))"
  using assms by (simp add: stored_images_def Let_def)

lemma stored_images_left:
  assumes "frame_count (decoded (F (video_path_of vr ''cam_right_high'' n))) = 0"
    and "0 < frame_count (decoded (F (video_path_of vr ''cam_left_high'' n)))"
  shows "stored_images vr n F = Some (three_cams (decoded (F (video_path_of vr ''cam_left_high'' n)))
     (decoded (F (video_path_of vr ''cam_left_wrist'' n))) (decoded (F (video_path_of vr ''cam_right_wrist'' n))))"
  using assms by (simp add: stored_images_def Let_def)


lemma process_episode_run_stdout:
  assumes "fs w p = Some (Parquet t)" "load_arrays f32 t = Inr (s, a)"
    and "makedirs (episode_dir bo p) w = Inr w1"
    and "fs w (container_path bo p) = None"
  shows "\<exists>ms. stdout (fst (process_episode f32 p vr bo w)) = stdout w @ ms
     \<and> (stored_images vr (episode_name_of p) (fs w) = None \<longrightarrow> ms \<noteq> [] \<and> last ms = BothPrimaryFailed)
     \<and> (stored_images vr (episode_name_of p) (fs w) \<noteq> None
          \<and> frame_count (decoded (fs w (video_path_of vr ''cam_right_high'' (episode_name_of p)))) = 0
        \<longrightarrow> FallbackWarning \<in> set ms)"
proof -
  let ?n = "episode_name_of p"
  note ext = makedirs_extends[OF assms(3)]
  have st: "stored_images vr ?n (fs w1) = stored_images vr ?n (fs w)"
    by (rule stored_images_extends[OF ext])
  have dc: "decoded (fs w1 q) = decoded (fs w q)" for q
    by (rule decoded_extends[OF ext])
  have so: "stdout w1 = stdout w" by (rule makedirs_stdout[OF assms(3)])
  from collect_images_stdout[of vr ?n "[]" w1] show ?thesis
    unfolding process_episode_run[OF assms] decode_and_write_stdout
    by (simp add: collect_images_snd st dc so)
qed

lemma frame_count_loaded:
  assumes "load_arrays f32 t = Inr (s, a)"
  shows "frame_count s = num_rows t" "0 < frame_count s"
  using load_arrays_Inr[OF assms] by (simp_all add: frame_count_def)


lemma container_absent_after_mkdir:
  assumes "makedirs (episode_dir bo p) w = Inr w1" "fs w (container_path bo p) = None"
  shows "fs w1 (container_path bo p) = None"
  using makedirs_longer[OF assms(1) container_path_longer] assms(2) by simp

subsection \<open>Case analysis of one episode and of the batch\<close>

lemma read_parquet_Inr: "read_parquet n = Inr t \<longleftrightarrow> n = Some (Parquet t)"
  by (auto simp: read_parquet_def split: option.splits node.splits)


lemma process_episode_cases:
  obtains
    (read_fail) e where "read_parquet (fs w p) = Inl e"
      "process_episode f32 p vr bo w = (w, Inl e)"
  | (load_fail) t e where "fs w p = Some (Parquet t)" "load_arrays f32 t = Inl e"
      "process_episode f32 p vr bo w = (w, Inl e)"
  | (mkdir_fail) t s a e where "fs w p = Some (Parquet t)" "load_arrays f32 t = Inr (s, a)"
      "makedirs (episode_dir bo p) w = Inl e"
      "process_episode f32 p vr bo w = (w, Inl e)"
  | (skip) t s a w1 where "fs w p = Some (Parquet t)" "load_arrays f32 t = Inr (s, a)"
      "makedirs (episode_dir bo p) w = Inr w1"
      "fs w (container_path bo p) \<noteq> None"
      "process_episode f32 p vr bo w
         = (print (AlreadyExists (container_path bo p)) w1, Inr ())"
  | (run) t s a w1 where "fs w p = Some (Parquet t)" "load_arrays f32 t = Inr (s, a)"
      "makedirs (episode_dir bo p) w = Inr w1"
      "fs w (container_path bo p) = None"
proof (cases "read_parquet (fs w p)")
  case (Inl e)
  then show ?thesis using process_episode_read_fail read_fail by blast
next
  case (Inr t)
  then have t: "fs w p = Some (Parquet t)" by (simp add: read_parquet_Inr)
  show ?thesis
  proof (cases "load_arrays f32 t")
    case (Inl e)
    then show ?thesis using process_episode_load_fail[OF t] load_fail t by blast
  next
    case (Inr sa)
    then obtain s a where sa: "load_arrays f32 t = Inr (s, a)" by (cases sa) auto
    show ?thesis
    proof (cases "makedirs (episode_dir bo p) w")
      case (Inl e)
      from process_episode_mkdir_fail[OF t sa Inl] show ?thesis using mkdir_fail[OF t sa Inl] by blast
    next
      case mk: (Inr w1)
      show ?thesis
      proof (cases "fs w (container_path bo p) = None")
        case True
        show ?thesis by (rule run[OF t sa mk True])
      next
        case False
        from process_episode_skip[OF t sa mk False] show ?thesis using skip[OF t sa mk False] by blast
      qed
    qed
  qed
qed

lemma check_steps_Inr:
  "check_steps n (three_cams x y z) = Inr u
     \<longleftrightarrow> frame_count x = n \<and> frame_count y = n \<and> frame_count z = n"
  by (simp add: three_cams_def)

lemma check_steps_Inl:
  assumes "check_steps n imgs = Inl e"
  shows "\<exists>k a. (k, a) \<in> set imgs \<and> frame_count a \<noteq> n
     \<and> e = AssertionError (StepMismatch k n (frame_count a))"
  using assms by (induction n imgs rule: check_steps.induct) (auto split: if_splits)

lemma check_steps_all:
  "check_steps n imgs = Inr () \<longleftrightarrow> list_all (\<lambda>(k, a). frame_count a = n) imgs"
  by (induction n imgs rule: check_steps.induct) auto


text \<open>A container that appears during an episode is the one of that episode.\<close>

lemma process_episode_written:
  assumes "process_episode f32 p vr bo w = (w', r)"
    and "fs w' q = Some (Hdf5 c)" "fs w q \<noteq> Some (Hdf5 c)"
  obtains t s a imgs where "fs w p = Some (Parquet t)" "load_arrays f32 t = Inr (s, a)"
    "fs w (container_path bo p) = None" "q = container_path bo p"
    "stored_images vr (episode_name_of p) (fs w) = Some imgs"
    "check_steps (frame_count s) imgs = Inr ()"
    "c = container_of \<lparr>qpos = s, action = a, images = imgs\<rparr>" "r = Inr ()"
proof (cases rule: process_episode_cases[where w=w and p=p and ?f32.0=f32 and bo=bo and vr=vr])
  case (read_fail e)
  with assms show ?thesis by simp
next
  case (load_fail t e)
  with assms show ?thesis by simp
next
  case (mkdir_fail t s a e)
  with assms show ?thesis by simp
next
  case (skip t s a w1)
  with assms have "fs w' = fs w1" by auto
  with makedirs_made[OF skip(3), of q] assms(2,3) show ?thesis by (auto split: if_splits)
next
  case (run t s a w1)
  note ex = process_episode_run_exact[OF run, of vr]
  from assms(1) have w': "fs w' = fs (fst (process_episode f32 p vr bo w))"
    and r: "r = snd (process_episode f32 p vr bo w)" by simp_all
  have old: "fs w1 q \<noteq> Some (Hdf5 c)"
    using makedirs_made[OF run(3), of q] assms(3) by (auto split: if_splits)
  show ?thesis
  proof (cases "stored_images vr (episode_name_of p) (fs w)")
    case None
    with ex(1) w' assms(2) old show ?thesis by simp
  next
    case (Some imgs)
    show ?thesis
    proof (cases "check_steps (frame_count s) imgs")
      case (Inl e)
      with Some ex(1) w' assms(2) old show ?thesis by simp
    next
      case (Inr u)
      with Some ex w' r assms(2) old have "q = container_path bo p"
        "c = container_of \<lparr>qpos = s, action = a, images = imgs\<rparr>" "r = Inr ()"
        by (auto split: if_splits)
      with that[OF run(1,2,4) _ Some] Inr show ?thesis by simp
    qed
  qed
qed

lemma length_joint_names: "length joint_names = 28"
  by (simp add: joint_names_def)

lemma main_written:
  assumes "main f32 es w = (w', r)" "fs w' q = Some (Hdf5 c)" "fs w q \<noteq> Some (Hdf5 c)"
  shows "\<exists>e w0 w1 r1. e \<in> set es \<and> process_episode f32 (path_join data_dir e) video_root base_output w0 = (w1, r1)
     \<and> fs w1 q = Some (Hdf5 c) \<and> fs w0 q \<noteq> Some (Hdf5 c)"
  using assms
proof (induction es arbitrary: w)
  case Nil
  then show ?case by simp
next
  case (Cons e es)
  show ?case
  proof (cases "endswith e ''.parquet''")
    case False
    with Cons.prems have "main f32 es w = (w', r)" by simp
    from Cons.IH[OF this Cons.prems(2,3)] show ?thesis by auto
  next
    case True
    obtain w1 r1 where pe: "process_episode f32 (path_join data_dir e) video_root base_output w = (w1, r1)"
      by (cases "process_episode f32 (path_join data_dir e) video_root base_output w")
    show ?thesis
    proof (cases "fs w1 q = Some (Hdf5 c)")
      case True
      with pe Cons.prems(3) show ?thesis by (intro exI[of _ e] exI[of _ w] exI[of _ w1] exI[of _ r1]) simp
    next
      case False
      show ?thesis
      proof (cases r1)
        case (Inl x)
        with pe True Cons.prems(1) have "w' = w1" by simp
        with False Cons.prems(2) show ?thesis by simp
      next
        case (Inr u)
        with pe \<open>endswith e ''.parquet''\<close> Cons.prems(1) have "main f32 es w1 = (w', r)" by simp
        from Cons.IH[OF this Cons.prems(2) False] show ?thesis by auto
      qed
    qed
  qed
qed

lemma main_single:
  assumes "endswith e ''.parquet''"
  shows "main f32 [e] w = process_episode f32 (path_join data_dir e) video_root base_output w"
proof -
  obtain w1 r1 where pe: "process_episode f32 (path_join data_dir e) video_root base_output w = (w1, r1)"
    by (cases "process_episode f32 (path_join data_dir e) video_root base_output w")
  with assms show ?thesis by (cases r1) simp_all
qed

lemma main_append:
  "main f32 (xs @ ys) w
     = (case main f32 xs w of (w1, Inl e) \<Rightarrow> (w1, Inl e) | (w1, Inr u) \<Rightarrow> main f32 ys w1)"
proof (induction xs arbitrary: w)
  case Nil
  then show ?case by simp
next
  case (Cons x xs)
  show ?case
  proof (cases "endswith x ''.parquet''")
    case False
    with Cons show ?thesis by simp
  next
    case True
    obtain v r where pe: "process_episode f32 (path_join data_dir x) video_root base_output w = (v, r)"
      by (cases "process_episode f32 (path_join data_dir x) video_root base_output w")
    with True Cons show ?thesis by (cases r) simp_all
  qed
qed

lemma written_counts:
  assumes "process_episode f32 p vr bo w = (w', r)"
    and "fs w' q = Some (Hdf5 c)" "fs w q \<noteq> Some (Hdf5 c)"
  shows "list_all (\<lambda>(k, dset). frame_count (cam_data dset) = frame_count (ds_data (obs_qpos c)))
           (obs_images c)"
proof -
  from assms obtain s a imgs where
    i: "stored_images vr (episode_name_of p) (fs w) = Some imgs"
    and ch: "check_steps (frame_count s) imgs = Inr ()"
    and c: "c = container_of \<lparr>qpos = s, action = a, images = imgs\<rparr>"
    by (rule process_episode_written)
  from stored_images_three[OF i] obtain x y z where xyz: "imgs = three_cams x y z" by blast
  with ch have "frame_count x = frame_count s \<and> frame_count y = frame_count s \<and> frame_count z = frame_count s"
    using check_steps_Inr[of "frame_count s" x y z "()"] by simp
  with c xyz show ?thesis by (simp add: container_of_def three_cams_def camera_ds_def)
qed


subsection \<open>Evaluation of the concrete episodes\<close>

lemmas path_defs = path_join_def basename_def splitext_root_def endswith_def data_dir_def
  video_root_def base_output_def video_path_of_def episode_name_of_def episode_dir_def
  container_path_def ep1_path_def bad_path_def

lemma ep1_names:
  "ep1_path = ''/media/hsh/data/G1_ObjectPlacement_Dataset/data/chunk-000/ep1.parquet''"
  "episode_name_of ''/media/hsh/data/G1_ObjectPlacement_Dataset/data/chunk-000/ep1.parquet'' = ''ep1''"
  "episode_dir base_output ''/media/hsh/data/G1_ObjectPlacement_Dataset/data/chunk-000/ep1.parquet''
     = ''/media/hsh/data/G1_ObjectPlacement_Dataset/outputs/ep1''"
  "container_path base_output ''/media/hsh/data/G1_ObjectPlacement_Dataset/data/chunk-000/ep1.parquet''
     = ''/media/hsh/data/G1_ObjectPlacement_Dataset/outputs/ep1/ep1.hdf5''"
  by (simp_all add: path_defs)

lemma bad_names:
  "bad_path = ''/media/hsh/data/G1_ObjectPlacement_Dataset/data/chunk-000/bad.parquet''"
  "episode_name_of ''/media/hsh/data/G1_ObjectPlacement_Dataset/data/chunk-000/bad.parquet'' = ''bad''"
  "episode_dir base_output ''/media/hsh/data/G1_ObjectPlacement_Dataset/data/chunk-000/bad.parquet''
     = ''/media/hsh/data/G1_ObjectPlacement_Dataset/outputs/bad''"
  "container_path base_output ''/media/hsh/data/G1_ObjectPlacement_Dataset/data/chunk-000/bad.parquet''
     = ''/media/hsh/data/G1_ObjectPlacement_Dataset/outputs/bad/bad.hdf5''"
  by (simp_all add: path_defs)

lemma video_paths:
  "video_path_of video_root ''cam_right_high'' ''ep1'' = ''/media/hsh/data/G1_ObjectPlacement_Dataset/videos/chunk-000/observation.images.cam_right_high/ep1.mp4''"
  "video_path_of video_root ''cam_left_high'' ''ep1'' = ''/media/hsh/data/G1_ObjectPlacement_Dataset/videos/chunk-000/observation.images.cam_left_high/ep1.mp4''"
  "video_path_of video_root ''cam_left_wrist'' ''ep1'' = ''/media/hsh/data/G1_ObjectPlacement_Dataset/videos/chunk-000/observation.images.cam_left_wrist/ep1.mp4''"
  "video_path_of video_root ''cam_right_wrist'' ''ep1'' = ''/media/hsh/data/G1_ObjectPlacement_Dataset/videos/chunk-000/observation.images.cam_right_wrist/ep1.mp4''"
  by (simp_all add: path_defs)

lemma load_good_table: "load_arrays (\<lambda>x. x) good_table = Inr (good_state, good_action)"
  by (simp add: load_arrays_def good_table_def column_names_def state_col_name_def
      action_col_name_def np_array_def to_numpy_def ndim_def astype_def upt_rec numeral_2_eq_2
      good_state_def good_action_def)

lemma load_no_action_table:
  "load_arrays (\<lambda>x. x) no_action_table = Inl (KeyError ''action'' [''timestamp'', ''observation.state''])"
  by (simp add: load_arrays_def no_action_table_def column_names_def state_col_name_def
      action_col_name_def)

lemma names_no_action_table: "column_names no_action_table = [''timestamp'', ''observation.state'']"
  by (simp add: no_action_table_def column_names_def)

lemma decoded_two_frames: "decoded (Some two_frames) = two_decoded"
  by (simp add: decoded_def read_video_try_def two_frames_def np_stack_def transpose_201_def
      good_frame_def shape_list_def two_decoded_def)

lemma decoded_one_frame:
  "decoded (Some (Mp4 (Frames [good_frame]))) = \<lparr>shape = [1, 3, 480, 640], items = [transpose_201 good_frame]\<rparr>"
  by (simp add: decoded_def read_video_try_def np_stack_def transpose_201_def good_frame_def shape_list_def)

lemma decoded_None: "decoded None = np_empty"
  by (simp add: decoded_def read_video_try_def)

lemma frame_count_values [simp]:
  "frame_count two_decoded = 2" "frame_count np_empty = 0" "frame_count good_state = 2"
  by (simp_all add: frame_count_def two_decoded_def np_empty_def good_state_def)

lemma endswith_ep1 [simp]: "endswith ''ep1.parquet'' ''.parquet''" "endswith ''bad.parquet'' ''.parquet''"
  by (simp_all add: endswith_def)

lemma stored_world_ok:
  "stored_images video_root ''ep1'' (fs world_ok) = Some (three_cams two_decoded two_decoded two_decoded)"
  by (simp add: stored_images_def world_ok_def video_paths ep1_names decoded_two_frames decoded_None)

lemma stored_world_fallback:
  "stored_images video_root ''ep1'' (fs world_fallback) = Some (three_cams two_decoded two_decoded two_decoded)"
  by (simp add: stored_images_def world_fallback_def video_paths ep1_names decoded_two_frames decoded_None)

lemma stored_world_wrist_missing:
  "stored_images video_root ''ep1'' (fs world_wrist_missing) = Some (three_cams two_decoded np_empty two_decoded)"
  by (simp add: stored_images_def world_wrist_missing_def video_paths ep1_names decoded_two_frames decoded_None)

lemma stored_world_no_primary:
  "stored_images video_root ''ep1'' (fs world_no_primary) = None"
  by (simp add: stored_images_def world_no_primary_def video_paths ep1_names decoded_two_frames decoded_None)

lemma stored_world_left_short:
  "stored_images video_root ''ep1'' (fs world_left_short) = Some (three_cams two_decoded two_decoded two_decoded)"
  by (simp add: stored_images_def world_left_short_def world_ok_def video_paths ep1_names
      decoded_two_frames decoded_None)

lemma stored_world_batch:
  "stored_images video_root ''ep1'' (fs world_batch) = Some (three_cams two_decoded two_decoded two_decoded)"
  by (simp add: stored_images_def world_batch_def world_ok_def video_paths ep1_names bad_names
      decoded_two_frames decoded_None)


lemma ep1_ancestors:
  "ancestors ''/media/hsh/data/G1_ObjectPlacement_Dataset/outputs/ep1''
     = [''/media'', ''/media/hsh'', ''/media/hsh/data'',
        ''/media/hsh/data/G1_ObjectPlacement_Dataset'',
        ''/media/hsh/data/G1_ObjectPlacement_Dataset/outputs'']"
  by (simp add: ancestors_def)

lemmas world_eval = ep1_names bad_names video_paths ep1_ancestors makedirs_def is_file_def

lemma world_ok_reach:
  "fs world_ok ep1_path = Some (Parquet good_table)"
  "makedirs (episode_dir base_output ep1_path) world_ok
     = Inr (after_makedirs (episode_dir base_output ep1_path) world_ok)"
  "fs world_ok (container_path base_output ep1_path) = None"
  by (simp_all add: world_ok_def world_eval)

lemma world_fallback_reach:
  "fs world_fallback ep1_path = Some (Parquet good_table)"
  "makedirs (episode_dir base_output ep1_path) world_fallback
     = Inr (after_makedirs (episode_dir base_output ep1_path) world_fallback)"
  "fs world_fallback (container_path base_output ep1_path) = None"
  by (simp_all add: world_fallback_def world_eval)

lemma world_wrist_missing_reach:
  "fs world_wrist_missing ep1_path = Some (Parquet good_table)"
  "makedirs (episode_dir base_output ep1_path) world_wrist_missing
     = Inr (after_makedirs (episode_dir base_output ep1_path) world_wrist_missing)"
  "fs world_wrist_missing (container_path base_output ep1_path) = None"
  by (simp_all add: world_wrist_missing_def world_eval)

lemma world_no_primary_reach:
  "fs world_no_primary ep1_path = Some (Parquet good_table)"
  "makedirs (episode_dir base_output ep1_path) world_no_primary
     = Inr (after_makedirs (episode_dir base_output ep1_path) world_no_primary)"
  "fs world_no_primary (container_path base_output ep1_path) = None"
  by (simp_all add: world_no_primary_def world_eval)

lemma world_left_short_reach:
  "fs world_left_short ep1_path = Some (Parquet good_table)"
  "makedirs (episode_dir base_output ep1_path) world_left_short
     = Inr (after_makedirs (episode_dir base_output ep1_path) world_left_short)"
  "fs world_left_short (container_path base_output ep1_path) = None"
  by (simp_all add: world_left_short_def world_ok_def world_eval)

lemma world_batch_reach:
  "fs world_batch bad_path = Some (Parquet no_action_table)"
  "fs world_batch ep1_path = Some (Parquet good_table)"
  "makedirs (episode_dir base_output ep1_path) world_batch
     = Inr (after_makedirs (episode_dir base_output ep1_path) world_batch)"
  "fs world_batch (container_path base_output ep1_path) = None"
  by (simp_all add: world_batch_def world_ok_def world_eval)

lemma world_blocked_reach:
  "fs world_blocked ep1_path = Some (Parquet good_table)"
  "makedirs (episode_dir base_output ep1_path) world_blocked = Inl NotADirectoryError"
  "fs world_blocked (episode_dir base_output ep1_path) = None"
  unfolding ep1_names by (simp_all add: world_blocked_def world_ok_def world_eval base_output_def)

lemma world_stale_reach:
  "fs world_stale ep1_path = Some (Parquet no_action_table)"
  "fs world_stale (container_path base_output ep1_path) = Some (Hdf5 stale_container)"
  by (simp_all add: world_stale_def ep1_names)


lemma after_makedirs_dir [simp]: "fs (after_makedirs d w) d = Some Dir"
  by (simp add: fs_after_makedirs)

lemma after_makedirs_container [simp]:
  "fs (after_makedirs (episode_dir bo p) w) (container_path bo p) = fs w (container_path bo p)"
  using container_not_in_chain[of bo p] by (simp add: fs_after_makedirs)

lemma run_world_ok:
  "fs (fst (process_episode (\<lambda>x. x) ep1_path video_root base_output world_ok))
     = (fs (after_makedirs (episode_dir base_output ep1_path) world_ok))
         (container_path base_output ep1_path \<mapsto> Hdf5 ok_container)"
  "snd (process_episode (\<lambda>x. x) ep1_path video_root base_output world_ok) = Inr ()"
  using process_episode_run_exact[OF world_ok_reach(1) load_good_table world_ok_reach(2,3), of video_root]
  by (simp_all add: ep1_names stored_world_ok check_steps_Inr[where u="()"] ok_container_def
      three_cams_def)

lemma run_world_fallback:
  "fs (fst (process_episode (\<lambda>x. x) ep1_path video_root base_output world_fallback))
     = (fs (after_makedirs (episode_dir base_output ep1_path) world_fallback))
         (container_path base_output ep1_path \<mapsto> Hdf5 ok_container)"
  "snd (process_episode (\<lambda>x. x) ep1_path video_root base_output world_fallback) = Inr ()"
  using process_episode_run_exact[OF world_fallback_reach(1) load_good_table world_fallback_reach(2,3), of video_root]
  by (simp_all add: ep1_names stored_world_fallback ok_container_def three_cams_def)

lemma run_world_left_short:
  "fs (fst (process_episode (\<lambda>x. x) ep1_path video_root base_output world_left_short))
     = (fs (after_makedirs (episode_dir base_output ep1_path) world_left_short))
         (container_path base_output ep1_path \<mapsto> Hdf5 ok_container)"
  "snd (process_episode (\<lambda>x. x) ep1_path video_root base_output world_left_short) = Inr ()"
  using process_episode_run_exact[OF world_left_short_reach(1) load_good_table world_left_short_reach(2,3), of video_root]
  by (simp_all add: ep1_names stored_world_left_short ok_container_def three_cams_def)

lemma run_world_wrist_missing:
  "fs (fst (process_episode (\<lambda>x. x) ep1_path video_root base_output world_wrist_missing))
     = fs (after_makedirs (episode_dir base_output ep1_path) world_wrist_missing)"
  "snd (process_episode (\<lambda>x. x) ep1_path video_root base_output world_wrist_missing)
     = Inl (AssertionError (StepMismatch ''cam_left_wrist'' 2 0))"
  using process_episode_run_exact[OF world_wrist_missing_reach(1) load_good_table world_wrist_missing_reach(2,3), of video_root]
  by (simp_all add: ep1_names stored_world_wrist_missing three_cams_def)

lemma run_world_no_primary:
  "fs (fst (process_episode (\<lambda>x. x) ep1_path video_root base_output world_no_primary))
     = fs (after_makedirs (episode_dir base_output ep1_path) world_no_primary)"
  "snd (process_episode (\<lambda>x. x) ep1_path video_root base_output world_no_primary) = Inr ()"
  using process_episode_run_exact[OF world_no_primary_reach(1) load_good_table world_no_primary_reach(2,3), of video_root]
  by (simp_all add: ep1_names stored_world_no_primary)

lemma run_world_batch_ep1:
  "fs (fst (process_episode (\<lambda>x. x) ep1_path video_root base_output world_batch))
     = (fs (after_makedirs (episode_dir base_output ep1_path) world_batch))
         (container_path base_output ep1_path \<mapsto> Hdf5 ok_container)"
  using process_episode_run_exact(1)[OF world_batch_reach(2) load_good_table world_batch_reach(3,4), of video_root]
  by (simp add: ep1_names stored_world_batch ok_container_def three_cams_def)

lemma run_world_batch_bad:
  "process_episode (\<lambda>x. x) bad_path video_root base_output world_batch
     = (world_batch, Inl (KeyError ''action'' [''timestamp'', ''observation.state'']))"
  by (rule process_episode_load_fail[OF world_batch_reach(1) load_no_action_table])

lemma run_world_stale:
  "process_episode (\<lambda>x. x) ep1_path video_root base_output world_stale
     = (world_stale, Inl (KeyError ''action'' [''timestamp'', ''observation.state'']))"
  by (rule process_episode_load_fail[OF world_stale_reach(1) load_no_action_table])


lemma run_world_blocked:
  "process_episode (\<lambda>x. x) ep1_path video_root base_output world_blocked
     = (world_blocked, Inl NotADirectoryError)"
  by (rule process_episode_mkdir_fail[OF world_blocked_reach(1) load_good_table world_blocked_reach(2)])

subsection \<open>Claims about the loader, the video reader and the container\<close>

text \<open>
  C8. When the record file has no \<open>observation.state\<close> column or no \<open>action\<close> column,
  \<open>process_episode\<close> raises the KeyError of line 135, which carries the available column
  names, and the state is the one before the call: no directory and no container is created.
\<close>

theorem missing_column_reported:
  assumes "fs w parquet_path = Some (Parquet t)"
    and "state_col_name \<notin> set (column_names t) \<or> action_col_name \<notin> set (column_names t)"
  shows "\<exists>c. process_episode f32 parquet_path video_root_dir base_output_dir w
              = (w, Inl (KeyError c (column_names t)))
     \<and> (c = state_col_name \<or> c = action_col_name) \<and> c \<notin> set (column_names t)"
proof -
  from load_arrays_KeyError[OF assms(2), of f32] obtain c where
    c: "load_arrays f32 t = Inl (KeyError c (column_names t))"
       "c = state_col_name \<or> c = action_col_name" "c \<notin> set (column_names t)" by blast
  from process_episode_load_fail[OF assms(1) c(1)] c(2,3) show ?thesis by blast
qed

theorem missing_column_reported_witness:
  "fs world_no_action ep1_path = Some (Parquet no_action_table)
   \<and> action_col_name \<notin> set (column_names no_action_table)
   \<and> process_episode (\<lambda>x. x) ep1_path video_root base_output world_no_action
       = (world_no_action, Inl (KeyError ''action'' [''timestamp'', ''observation.state'']))"
proof -
  have h1: "fs world_no_action ep1_path = Some (Parquet no_action_table)"
    by (simp add: world_no_action_def)
  have h2: "action_col_name \<notin> set (column_names no_action_table)"
    by (simp add: names_no_action_table action_col_name_def)
  then have h2': "state_col_name \<notin> set (column_names no_action_table)
      \<or> action_col_name \<notin> set (column_names no_action_table)" by simp
  from missing_column_reported[OF h1 h2', of "\<lambda>x. x" video_root base_output] h1 h2
  show ?thesis by (auto simp: names_no_action_table action_col_name_def state_col_name_def)
qed



text \<open>
  C7. In every container written by \<open>process_episode\<close>, and so by \<open>main\<close>, the state
  dataset and the action dataset carry the same list of 28 names, and both are matrices with
  the same number of rows (and 28 columns).
\<close>

theorem state_action_same_names_and_rows:
  assumes "process_episode f32 p video_root_dir base_output_dir w = (w', r)
        \<or> main f32 listing w = (w', r)"
    and "fs w' q = Some (Hdf5 c)" "fs w q \<noteq> Some (Hdf5 c)"
  shows "ds_names (obs_qpos c) = ds_names (action_ds c) \<and> ds_names (obs_qpos c) = joint_names
     \<and> length (ds_names (obs_qpos c)) = 28
     \<and> (\<exists>n. 0 < n \<and> shape (ds_data (obs_qpos c)) = [n, 28] \<and> shape (ds_data (action_ds c)) = [n, 28]
          \<and> length (items (ds_data (obs_qpos c))) = n \<and> length (items (ds_data (action_ds c))) = n)"
proof -
  from assms obtain p' vr bo w0 w1 r1 where pe: "process_episode f32 p' vr bo w0 = (w1, r1)"
    "fs w1 q = Some (Hdf5 c)" "fs w0 q \<noteq> Some (Hdf5 c)"
    using main_written[of f32 listing w w' r q c] by blast
  from pe obtain t s a imgs where t: "load_arrays f32 t = Inr (s, a)"
    and c: "c = container_of \<lparr>qpos = s, action = a, images = imgs\<rparr>"
    by (rule process_episode_written)
  from load_arrays_Inr[OF t] c show ?thesis
    by (simp add: container_of_def length_joint_names)
qed

theorem state_action_same_names_and_rows_witness:
  "fs (fst (process_episode (\<lambda>x. x) ep1_path video_root base_output world_ok))
      (container_path base_output ep1_path) = Some (Hdf5 ok_container)
   \<and> fs world_ok (container_path base_output ep1_path) \<noteq> Some (Hdf5 ok_container)
   \<and> ds_names (obs_qpos ok_container) = ds_names (action_ds ok_container)
   \<and> length (ds_names (obs_qpos ok_container)) = 28
   \<and> shape (ds_data (obs_qpos ok_container)) = [2, 28]
   \<and> shape (ds_data (action_ds ok_container)) = [2, 28]"
proof -
  let ?pe = "process_episode (\<lambda>x. x) ep1_path video_root base_output world_ok"
  have h1: "?pe = (fst ?pe, snd ?pe) \<or> main (\<lambda>x. x) [] world_ok = (fst ?pe, snd ?pe)" by simp
  have h2: "fs (fst ?pe) (container_path base_output ep1_path) = Some (Hdf5 ok_container)"
    by (simp add: run_world_ok)
  have h3: "fs world_ok (container_path base_output ep1_path) \<noteq> Some (Hdf5 ok_container)"
    by (simp add: world_ok_reach)
  from state_action_same_names_and_rows[OF h1 h2 h3] h2 h3 show ?thesis
    by (auto simp: ok_container_def container_of_def good_state_def good_action_def)
qed

text \<open>
  C10. Every container written by \<open>process_episode\<close>, and so by \<open>main\<close>, holds exactly the
  three camera datasets \<open>cam_right_high\<close>, \<open>cam_left_wrist\<close> and \<open>cam_right_wrist\<close>, in this
  order; there is no dataset \<open>cam_left_high\<close>. The witness is an episode whose primary-right
  video is missing: the primary-left frames are in the dataset \<open>cam_right_high\<close>.
\<close>

theorem three_camera_datasets:
  assumes "process_episode f32 p video_root_dir base_output_dir w = (w', r)
        \<or> main f32 listing w = (w', r)"
    and "fs w' q = Some (Hdf5 c)" "fs w q \<noteq> Some (Hdf5 c)"
  shows "map fst (obs_images c) = [''cam_right_high'', ''cam_left_wrist'', ''cam_right_wrist'']
     \<and> map_of (obs_images c) ''cam_left_high'' = None"
proof -
  from assms obtain p' vr bo w0 w1 r1 where pe: "process_episode f32 p' vr bo w0 = (w1, r1)"
    "fs w1 q = Some (Hdf5 c)" "fs w0 q \<noteq> Some (Hdf5 c)"
    using main_written[of f32 listing w w' r q c] by blast
  from pe obtain s a imgs where
    i: "stored_images vr (episode_name_of p') (fs w0) = Some imgs"
    and c: "c = container_of \<lparr>qpos = s, action = a, images = imgs\<rparr>"
    by (rule process_episode_written)
  from stored_images_three[OF i] obtain x y z where "imgs = three_cams x y z" by blast
  with c show ?thesis by (simp add: container_of_def three_cams_def)
qed

theorem three_camera_datasets_witness:
  "fs (fst (process_episode (\<lambda>x. x) ep1_path video_root base_output world_fallback))
      (container_path base_output ep1_path) = Some (Hdf5 ok_container)
   \<and> fs world_fallback (container_path base_output ep1_path) \<noteq> Some (Hdf5 ok_container)
   \<and> map fst (obs_images ok_container) = [''cam_right_high'', ''cam_left_wrist'', ''cam_right_wrist'']
   \<and> map_of (obs_images ok_container) ''cam_left_high'' = None
   \<and> map_option cam_data (map_of (obs_images ok_container) ''cam_right_high'')
       = Some (decoded (fs world_fallback (video_path_of video_root ''cam_left_high'' ''ep1'')))"
proof -
  let ?pe = "process_episode (\<lambda>x. x) ep1_path video_root base_output world_fallback"
  have h1: "?pe = (fst ?pe, snd ?pe) \<or> main (\<lambda>x. x) [] world_fallback = (fst ?pe, snd ?pe)" by simp
  have h2: "fs (fst ?pe) (container_path base_output ep1_path) = Some (Hdf5 ok_container)"
    by (simp add: run_world_fallback)
  have h3: "fs world_fallback (container_path base_output ep1_path) \<noteq> Some (Hdf5 ok_container)"
    by (simp add: world_fallback_reach)
  have l: "decoded (fs world_fallback (video_path_of video_root ''cam_left_high'' ''ep1'')) = two_decoded"
    by (simp add: world_fallback_def video_paths ep1_names decoded_two_frames)
  from three_camera_datasets[OF h1 h2 h3] h2 h3 l show ?thesis
    by (simp add: ok_container_def container_of_def three_cams_def camera_ds_def)
qed


subsection \<open>Claims about the episode directory and the primary camera\<close>

text \<open>
  C9, as stated, fails when \<open>os.makedirs\<close> (line 166) raises: in \<open>world_blocked\<close> the record
  file passes the column and shape checks and the episode directory is absent, but the base
  output directory, a path above it, is a regular file. \<open>process_episode\<close> raises
  NotADirectoryError, the state is unchanged and the episode directory is still absent.
\<close>

theorem episode_dir_not_created_counterexample:
  "fs world_blocked ep1_path = Some (Parquet good_table)
   \<and> load_arrays (\<lambda>x. x) good_table = Inr (good_state, good_action)
   \<and> fs world_blocked (episode_dir base_output ep1_path) = None
   \<and> fs world_blocked base_output = Some Other_file
   \<and> base_output \<in> set (ancestors (episode_dir base_output ep1_path))
   \<and> process_episode (\<lambda>x. x) ep1_path video_root base_output world_blocked
       = (world_blocked, Inl NotADirectoryError)
   \<and> fs (fst (process_episode (\<lambda>x. x) ep1_path video_root base_output world_blocked))
        (episode_dir base_output ep1_path) = None"
proof -
  have b: "fs world_blocked base_output = Some Other_file"
    by (simp add: world_blocked_def)
  have c: "base_output \<in> set (ancestors (episode_dir base_output ep1_path))"
    unfolding ep1_names by (simp add: ep1_names ep1_ancestors base_output_def)
  from b c world_blocked_reach(1,3) load_good_table run_world_blocked show ?thesis by simp
qed

text \<open>
  C9, amended. When the record file passes the column and shape checks, \<open>process_episode\<close>
  calls \<open>os.makedirs\<close> on the episode directory before the existence check and before any
  video is read. If that call raises, \<open>process_episode\<close> raises the same exception and the
  state is the one before the call. If it succeeds, the episode directory exists from then
  on, whatever happens afterwards: also when the container exists already, when both primary
  videos fail to decode, and when the step assertion fails. In these three cases the file
  system is the one \<open>os.makedirs\<close> left, and in the last two there is no container.
\<close>

theorem episode_dir_created_before_decoding:
  assumes "fs w p = Some (Parquet t)" "load_arrays f32 t = Inr (s, a)"
    and "process_episode f32 p vr bo w = (w', r)"
  shows "(\<forall>e. makedirs (episode_dir bo p) w = Inl e \<longrightarrow> w' = w \<and> r = Inl e)
     \<and> (\<forall>w1. makedirs (episode_dir bo p) w = Inr w1 \<longrightarrow>
           fs w1 (episode_dir bo p) = Some Dir
         \<and> (\<forall>q. q \<notin> set (ancestors (episode_dir bo p) @ [episode_dir bo p]) \<longrightarrow> fs w1 q = fs w q)
         \<and> fs w' (episode_dir bo p) = Some Dir
         \<and> (fs w (container_path bo p) \<noteq> None \<longrightarrow> r = Inr () \<and> fs w' = fs w1)
         \<and> (fs w (container_path bo p) = None
              \<and> frame_count (decoded (fs w (video_path_of vr ''cam_right_high'' (episode_name_of p)))) = 0
              \<and> frame_count (decoded (fs w (video_path_of vr ''cam_left_high'' (episode_name_of p)))) = 0
              \<longrightarrow> r = Inr () \<and> fs w' = fs w1 \<and> fs w' (container_path bo p) = None)
         \<and> (\<forall>k m j. r = Inl (AssertionError (StepMismatch k m j))
              \<longrightarrow> fs w' = fs w1 \<and> fs w' (container_path bo p) = None))"
proof -
  let ?d = "episode_dir bo p" and ?o = "container_path bo p"
  let ?n = "episode_name_of p"
  have F: "w' = w \<and> r = Inl e" if "makedirs ?d w = Inl e" for e
    using process_episode_mkdir_fail[OF assms(1,2) that, of vr] assms(3) by simp
  have S: "fs w1 ?d = Some Dir
         \<and> (\<forall>q. q \<notin> set (ancestors ?d @ [?d]) \<longrightarrow> fs w1 q = fs w q)
         \<and> fs w' ?d = Some Dir
         \<and> (fs w ?o \<noteq> None \<longrightarrow> r = Inr () \<and> fs w' = fs w1)
         \<and> (fs w ?o = None
              \<and> frame_count (decoded (fs w (video_path_of vr ''cam_right_high'' ?n))) = 0
              \<and> frame_count (decoded (fs w (video_path_of vr ''cam_left_high'' ?n))) = 0
              \<longrightarrow> r = Inr () \<and> fs w' = fs w1 \<and> fs w' ?o = None)
         \<and> (\<forall>k m j. r = Inl (AssertionError (StepMismatch k m j))
              \<longrightarrow> fs w' = fs w1 \<and> fs w' ?o = None)"
    if m: "makedirs ?d w = Inr w1" for w1
  proof -
    have d1: "fs w1 ?d = Some Dir" using makedirs_made[OF m, of ?d] by simp
    have d2: "\<forall>q. q \<notin> set (ancestors ?d @ [?d]) \<longrightarrow> fs w1 q = fs w q"
      using makedirs_made[OF m] by simp
    show ?thesis
    proof (cases "fs w ?o = None")
      case False
      from process_episode_skip[OF assms(1,2) m False, of vr] assms(3)
      have "r = Inr ()" "fs w' = fs w1" by auto
      with d1 d2 False show ?thesis by auto
    next
      case True
      note ex = process_episode_run_exact[OF assms(1,2) m True, of vr]
      from assms(3) have w': "fs w' = fs (fst (process_episode f32 p vr bo w))"
        and r: "r = snd (process_episode f32 p vr bo w)" by simp_all
      note ab = container_absent_after_mkdir[OF m True]
      show ?thesis
      proof (cases "stored_images vr ?n (fs w)")
        case None
        with ex w' r True ab d1 d2 show ?thesis by (simp add: stored_images_None)
      next
        case (Some imgs)
        then have nz: "\<not> (frame_count (decoded (fs w (video_path_of vr ''cam_right_high'' ?n))) = 0
            \<and> frame_count (decoded (fs w (video_path_of vr ''cam_left_high'' ?n))) = 0)"
          using stored_images_None[of vr ?n "fs w"] by simp
        show ?thesis
        proof (cases "check_steps (frame_count s) imgs")
          case (Inl e)
          with Some ex w' r True ab nz d1 d2 show ?thesis by simp
        next
          case (Inr u)
          with Some ex w' r True nz d1 d2 container_path_neq_dir[of bo p] show ?thesis by simp
        qed
      qed
    qed
  qed
  show ?thesis
  proof (intro conjI allI impI)
    fix e assume "makedirs ?d w = Inl e"
    from F[OF this] show "w' = w" "r = Inl e" by simp_all
  next
    fix w1 assume m: "makedirs ?d w = Inr w1"
    note s = S[OF m]
    from s show "fs w1 ?d = Some Dir" by simp
    from s show "fs w' ?d = Some Dir" by simp
    { fix q assume "q \<notin> set (ancestors ?d @ [?d])"
      with s show "fs w1 q = fs w q" by simp }
    { assume "fs w ?o \<noteq> None"
      with s show "r = Inr ()" "fs w' = fs w1" by simp_all }
    { assume "fs w ?o = None
              \<and> frame_count (decoded (fs w (video_path_of vr ''cam_right_high'' ?n))) = 0
              \<and> frame_count (decoded (fs w (video_path_of vr ''cam_left_high'' ?n))) = 0"
      with s show "r = Inr ()" "fs w' = fs w1" "fs w' ?o = None" by auto }
    { fix k m j assume "r = Inl (AssertionError (StepMismatch k m j))"
      with s show "fs w' = fs w1" "fs w' ?o = None" by auto }
  qed
qed

theorem episode_dir_created_before_decoding_witness:
  "fs world_wrist_missing (episode_dir base_output ep1_path) = None
   \<and> snd (process_episode (\<lambda>x. x) ep1_path video_root base_output world_wrist_missing)
       = Inl (AssertionError (StepMismatch ''cam_left_wrist'' 2 0))
   \<and> fs (fst (process_episode (\<lambda>x. x) ep1_path video_root base_output world_wrist_missing))
        (episode_dir base_output ep1_path) = Some Dir
   \<and> fs (fst (process_episode (\<lambda>x. x) ep1_path video_root base_output world_wrist_missing))
        (container_path base_output ep1_path) = None
   \<and> ep1_path \<notin> set (ancestors (episode_dir base_output ep1_path) @ [episode_dir base_output ep1_path])
   \<and> fs (fst (process_episode (\<lambda>x. x) ep1_path video_root base_output world_wrist_missing)) ep1_path
       = fs world_wrist_missing ep1_path
   \<and> fs world_no_primary (episode_dir base_output ep1_path) = None
   \<and> snd (process_episode (\<lambda>x. x) ep1_path video_root base_output world_no_primary) = Inr ()
   \<and> fs (fst (process_episode (\<lambda>x. x) ep1_path video_root base_output world_no_primary))
        (episode_dir base_output ep1_path) = Some Dir
   \<and> fs (fst (process_episode (\<lambda>x. x) ep1_path video_root base_output world_no_primary))
        (container_path base_output ep1_path) = None
   \<and> fs (fst (process_episode (\<lambda>x. x) ep1_path video_root base_output world_ok))
        (container_path base_output ep1_path) = Some (Hdf5 ok_container)
   \<and> snd (process_episode (\<lambda>x. x) ep1_path video_root base_output
        (fst (process_episode (\<lambda>x. x) ep1_path video_root base_output world_ok))) = Inr ()
   \<and> fs (fst (process_episode (\<lambda>x. x) ep1_path video_root base_output
        (fst (process_episode (\<lambda>x. x) ep1_path video_root base_output world_ok))))
       = fs (fst (process_episode (\<lambda>x. x) ep1_path video_root base_output world_ok))
   \<and> fs (fst (process_episode (\<lambda>x. x) ep1_path video_root base_output world_ok))
        (episode_dir base_output ep1_path) = Some Dir
   \<and> makedirs (episode_dir base_output ep1_path) world_blocked = Inl NotADirectoryError
   \<and> process_episode (\<lambda>x. x) ep1_path video_root base_output world_blocked
       = (world_blocked, Inl NotADirectoryError)"
proof -
  let ?d = "episode_dir base_output ep1_path" and ?o = "container_path base_output ep1_path"
  let ?a = "process_episode (\<lambda>x. x) ep1_path video_root base_output world_wrist_missing"
  let ?b = "process_episode (\<lambda>x. x) ep1_path video_root base_output world_no_primary"
  let ?w2 = "fst (process_episode (\<lambda>x. x) ep1_path video_root base_output world_ok)"
  let ?c = "process_episode (\<lambda>x. x) ep1_path video_root base_output ?w2"
  let ?e = "process_episode (\<lambda>x. x) ep1_path video_root base_output world_blocked"
  have da: "fs world_wrist_missing ?d = None"
    and db: "fs world_no_primary ?d = None"
    by (simp_all add: world_wrist_missing_def world_no_primary_def ep1_names video_paths)
  have ra: "?a = (fst ?a, Inl (AssertionError (StepMismatch ''cam_left_wrist'' 2 0)))"
    using run_world_wrist_missing(2) by (simp add: prod_eq_iff)
  have rb: "?b = (fst ?b, snd ?b)" and rc: "?c = (fst ?c, snd ?c)" and re: "?e = (fst ?e, snd ?e)"
    by simp_all
  have zb: "frame_count (decoded (fs world_no_primary (video_path_of video_root ''cam_right_high'' (episode_name_of ep1_path)))) = 0"
    "frame_count (decoded (fs world_no_primary (video_path_of video_root ''cam_left_high'' (episode_name_of ep1_path)))) = 0"
    by (simp_all add: world_no_primary_def ep1_names video_paths decoded_None)
  have nq: "ep1_path \<notin> set (ancestors ?d @ [?d])"
    unfolding ep1_names by (simp add: ep1_ancestors)
  from episode_dir_created_before_decoding[OF world_wrist_missing_reach(1) load_good_table ra]
       world_wrist_missing_reach(2) nq
  have A: "fs (fst ?a) ?d = Some Dir \<and> fs (fst ?a) ?o = None
      \<and> fs (fst ?a) ep1_path = fs world_wrist_missing ep1_path"
    by simp
  from episode_dir_created_before_decoding[OF world_no_primary_reach(1) load_good_table rb]
       zb world_no_primary_reach(2,3)
  have B: "fs (fst ?b) ?d = Some Dir \<and> snd ?b = Inr () \<and> fs (fst ?b) ?o = None"
    by simp
  have c1: "fs ?w2 ?o = Some (Hdf5 ok_container)" by (simp add: run_world_ok)
  have "fs ?w2 ep1_path = ((fs (after_makedirs ?d world_ok))(?o \<mapsto> Hdf5 ok_container)) ep1_path"
    by (simp only: run_world_ok(1))
  also have "\<dots> = Some (Parquet good_table)"
    unfolding ep1_names
    by (simp add: fs_after_makedirs ep1_ancestors world_ok_def ep1_names video_paths)
  finally have c2: "fs ?w2 ep1_path = Some (Parquet good_table)" .
  have c3: "chain_ok (fs ?w2) ?d"
    unfolding run_world_ok(1)
    by (intro chain_ok_write chain_ok_after[OF world_ok_reach(2)])
  note c4 = makedirs_noop[OF c3]
  from episode_dir_created_before_decoding[OF c2 load_good_table rc] c4 c1
  have C: "snd ?c = Inr () \<and> fs (fst ?c) = fs ?w2 \<and> fs ?w2 ?d = Some Dir"
    by simp
  from episode_dir_created_before_decoding[OF world_blocked_reach(1) load_good_table re]
       world_blocked_reach(2)
  have E: "fst ?e = world_blocked \<and> snd ?e = Inl NotADirectoryError"
    by simp
  then have E': "?e = (world_blocked, Inl NotADirectoryError)" by (simp add: prod_eq_iff)
  from A B C c1 E' da db nq run_world_wrist_missing(2) world_blocked_reach(2) show ?thesis
    by simp
qed

text \<open>
  C4. An episode reaches the video stage when its record file passes the checks,
  \<open>os.makedirs\<close> succeeds on the episode directory and no container exists. If then the
  primary-right video yields no frame and the primary-left video yields frames, the warning
  is printed, the primary-left array is held under the key \<open>cam_right_high\<close>, a container is
  written exactly when the three held arrays have as many frames as the state has rows, and
  the dataset \<open>cam_right_high\<close> of that container is the decoded primary-left array. If both
  primary videos yield no frame, \<open>process_episode\<close> prints the failure and returns; the file
  system is the one \<open>os.makedirs\<close> left and no container is written.
\<close>

theorem primary_fallback:
  assumes "fs w p = Some (Parquet t)" "load_arrays f32 t = Inr (s, a)"
    and "makedirs (episode_dir bo p) w = Inr w1"
    and "fs w (container_path bo p) = None"
    and "frame_count (decoded (fs w (video_path_of vr ''cam_right_high'' (episode_name_of p)))) = 0"
    and "process_episode f32 p vr bo w = (w', r)"
  shows "(0 < frame_count (decoded (fs w (video_path_of vr ''cam_left_high'' (episode_name_of p))))
           \<longrightarrow> (\<exists>ms. stdout w' = stdout w @ ms \<and> FallbackWarning \<in> set ms)
             \<and> map_option (map_of) (stored_images vr (episode_name_of p) (fs w))
                 = Some (map_of (three_cams
                     (decoded (fs w (video_path_of vr ''cam_left_high'' (episode_name_of p))))
                     (decoded (fs w (video_path_of vr ''cam_left_wrist'' (episode_name_of p))))
                     (decoded (fs w (video_path_of vr ''cam_right_wrist'' (episode_name_of p))))))
             \<and> (\<forall>c. fs w' (container_path bo p) = Some (Hdf5 c)
                  \<longrightarrow> map_option cam_data (map_of (obs_images c) ''cam_right_high'')
                      = Some (decoded (fs w (video_path_of vr ''cam_left_high'' (episode_name_of p)))))
             \<and> ((\<exists>c. fs w' (container_path bo p) = Some (Hdf5 c))
                  \<longleftrightarrow> frame_count (decoded (fs w (video_path_of vr ''cam_left_high'' (episode_name_of p)))) = frame_count s
                    \<and> frame_count (decoded (fs w (video_path_of vr ''cam_left_wrist'' (episode_name_of p)))) = frame_count s
                    \<and> frame_count (decoded (fs w (video_path_of vr ''cam_right_wrist'' (episode_name_of p)))) = frame_count s))
     \<and> (frame_count (decoded (fs w (video_path_of vr ''cam_left_high'' (episode_name_of p)))) = 0
           \<longrightarrow> r = Inr () \<and> fs w' = fs w1
             \<and> fs w' (container_path bo p) = None
             \<and> (\<exists>ms. stdout w' = stdout w @ ms @ [BothPrimaryFailed]))"
proof -
  let ?n = "episode_name_of p"
  let ?l = "decoded (fs w (video_path_of vr ''cam_left_high'' ?n))"
  let ?lw = "decoded (fs w (video_path_of vr ''cam_left_wrist'' ?n))"
  let ?rw = "decoded (fs w (video_path_of vr ''cam_right_wrist'' ?n))"
  note ex = process_episode_run_exact[OF assms(1-4), of vr]
  from assms(6) have w': "fs w' = fs (fst (process_episode f32 p vr bo w))"
    and r: "r = snd (process_episode f32 p vr bo w)"
    and so: "stdout w' = stdout (fst (process_episode f32 p vr bo w))" by simp_all
  from process_episode_run_stdout[OF assms(1-4), of vr] obtain ms where
    ms: "stdout (fst (process_episode f32 p vr bo w)) = stdout w @ ms
     \<and> (stored_images vr ?n (fs w) = None \<longrightarrow> ms \<noteq> [] \<and> last ms = BothPrimaryFailed)
     \<and> (stored_images vr ?n (fs w) \<noteq> None
          \<and> frame_count (decoded (fs w (video_path_of vr ''cam_right_high'' ?n))) = 0
        \<longrightarrow> FallbackWarning \<in> set ms)" ..
  note ms0 = ms[THEN conjunct1] and ms2 = ms[THEN conjunct2, THEN conjunct1]
    and ms3 = ms[THEN conjunct2, THEN conjunct2]
  from ms0 so have ms1: "stdout w' = stdout w @ ms" by simp
  note ab = container_absent_after_mkdir[OF assms(3,4)]
  have A: ?thesis if z: "frame_count ?l = 0"
  proof -
    from z assms(5) have st: "stored_images vr ?n (fs w) = None" by (simp add: stored_images_None)
    with ms2 have "ms = butlast ms @ [BothPrimaryFailed]" by (metis append_butlast_last_id)
    with ms1 have "\<exists>ms'. stdout w' = stdout w @ ms' @ [BothPrimaryFailed]" by metis
    with st ex w' r ab z show ?thesis by simp
  qed
  have B: ?thesis if nz: "0 < frame_count ?l"
  proof -
    from stored_images_left[OF assms(5) nz] have st: "stored_images vr ?n (fs w) = Some (three_cams ?l ?lw ?rw)" .
    with ms1 ms3 assms(5) have warn: "\<exists>ms. stdout w' = stdout w @ ms \<and> FallbackWarning \<in> set ms" by auto
    show ?thesis
    proof (cases "check_steps (frame_count s) (three_cams ?l ?lw ?rw)")
      case (Inl e)
      then have "\<not> (frame_count ?l = frame_count s \<and> frame_count ?lw = frame_count s \<and> frame_count ?rw = frame_count s)"
        using check_steps_Inr[of "frame_count s" ?l ?lw ?rw "()"] by auto
      with Inl st ex w' ab nz warn show ?thesis by simp
    next
      case (Inr u)
      then have "frame_count ?l = frame_count s \<and> frame_count ?lw = frame_count s \<and> frame_count ?rw = frame_count s"
        using check_steps_Inr[of "frame_count s" ?l ?lw ?rw u] by simp
      with Inr st ex w' nz warn show ?thesis
        by (simp add: container_of_def three_cams_def camera_ds_def)
    qed
  qed
  from A B show ?thesis by (cases "frame_count ?l = 0") auto
qed

theorem primary_fallback_witness:
  "frame_count (decoded (fs world_fallback (video_path_of video_root ''cam_right_high'' ''ep1''))) = 0
   \<and> 0 < frame_count (decoded (fs world_fallback (video_path_of video_root ''cam_left_high'' ''ep1'')))
   \<and> FallbackWarning \<in> set (stdout (fst (process_episode (\<lambda>x. x) ep1_path video_root base_output world_fallback)))
   \<and> fs (fst (process_episode (\<lambda>x. x) ep1_path video_root base_output world_fallback))
        (container_path base_output ep1_path) = Some (Hdf5 ok_container)
   \<and> map_option cam_data (map_of (obs_images ok_container) ''cam_right_high'')
       = Some (decoded (fs world_fallback (video_path_of video_root ''cam_left_high'' ''ep1'')))
   \<and> frame_count (decoded (fs world_no_primary (video_path_of video_root ''cam_left_high'' ''ep1''))) = 0
   \<and> fs (fst (process_episode (\<lambda>x. x) ep1_path video_root base_output world_no_primary))
        (container_path base_output ep1_path) = None
   \<and> last (stdout (fst (process_episode (\<lambda>x. x) ep1_path video_root base_output world_no_primary)))
       = BothPrimaryFailed"
proof -
  let ?a = "process_episode (\<lambda>x. x) ep1_path video_root base_output world_fallback"
  let ?b = "process_episode (\<lambda>x. x) ep1_path video_root base_output world_no_primary"
  have n: "episode_name_of ep1_path = ''ep1''" by (simp add: ep1_names)
  have za: "frame_count (decoded (fs world_fallback (video_path_of video_root ''cam_right_high'' (episode_name_of ep1_path)))) = 0"
    and la: "0 < frame_count (decoded (fs world_fallback (video_path_of video_root ''cam_left_high'' (episode_name_of ep1_path))))"
    and zb: "frame_count (decoded (fs world_no_primary (video_path_of video_root ''cam_right_high'' (episode_name_of ep1_path)))) = 0"
    and lb: "frame_count (decoded (fs world_no_primary (video_path_of video_root ''cam_left_high'' (episode_name_of ep1_path)))) = 0"
    by (simp_all add: world_fallback_def world_no_primary_def ep1_names video_paths decoded_None decoded_two_frames)
  have ra: "?a = (fst ?a, snd ?a)" and rb: "?b = (fst ?b, snd ?b)" by simp_all
  have sa: "stdout world_fallback = []" and sb: "stdout world_no_primary = []"
    by (simp_all add: world_fallback_def world_no_primary_def)
  from primary_fallback[OF world_fallback_reach(1) load_good_table world_fallback_reach(2,3) za ra] la sa
  have A: "FallbackWarning \<in> set (stdout (fst ?a))" by auto
  from primary_fallback[OF world_no_primary_reach(1) load_good_table world_no_primary_reach(2,3) zb rb] lb sb
  have B: "fs (fst ?b) (container_path base_output ep1_path) = None
      \<and> last (stdout (fst ?b)) = BothPrimaryFailed" by auto
  have C: "map_option cam_data (map_of (obs_images ok_container) ''cam_right_high'') = Some two_decoded"
    by (simp add: ok_container_def container_of_def three_cams_def camera_ds_def)
  have D: "decoded (fs world_fallback (video_path_of video_root ''cam_left_high'' ''ep1'')) = two_decoded"
    by (simp add: world_fallback_def ep1_names video_paths decoded_two_frames)
  from A B C D za la zb lb n run_world_fallback(1) show ?thesis by simp
qed


subsection \<open>Claims about the step check\<close>

text \<open>
  C2, as stated, fails: the state has two rows, the wrist-left video is missing, and the
  episode ends with the AssertionError of line 213 and without a container.
\<close>

theorem secondary_zero_frames_counterexample:
  "load_arrays (\<lambda>x. x) good_table = Inr (good_state, good_action)
   \<and> 0 < frame_count good_state
   \<and> 0 < frame_count (decoded (fs world_wrist_missing (video_path_of video_root ''cam_right_high'' ''ep1'')))
   \<and> frame_count (decoded (fs world_wrist_missing (video_path_of video_root ''cam_left_wrist'' ''ep1''))) = 0
   \<and> snd (process_episode (\<lambda>x. x) ep1_path video_root base_output world_wrist_missing)
       = Inl (AssertionError (StepMismatch ''cam_left_wrist'' 2 0))
   \<and> fs (fst (process_episode (\<lambda>x. x) ep1_path video_root base_output world_wrist_missing))
        (container_path base_output ep1_path) = None"
proof -
  have "fs (fst (process_episode (\<lambda>x. x) ep1_path video_root base_output world_wrist_missing))
        (container_path base_output ep1_path) = None"
    using world_wrist_missing_reach(3) by (simp add: run_world_wrist_missing(1) container_path_neq_dir)
  moreover have "0 < frame_count (decoded (fs world_wrist_missing (video_path_of video_root ''cam_right_high'' ''ep1'')))"
    "frame_count (decoded (fs world_wrist_missing (video_path_of video_root ''cam_left_wrist'' ''ep1''))) = 0"
    by (simp_all add: world_wrist_missing_def ep1_names video_paths decoded_None decoded_two_frames)
  ultimately show ?thesis by (simp add: load_good_table run_world_wrist_missing(2))
qed

text \<open>
  C2, amended. The state of an episode that passes the record checks has one row at least.
  When such an episode reaches the video stage (\<open>os.makedirs\<close> succeeds and no container
  exists) with a primary array, and a wrist video yields no frame, \<open>read_video\<close> does not end
  the episode, but the step assertion of line 213 does: \<open>process_episode\<close> raises its
  AssertionError for one of the three held cameras, with the number of rows and the frame
  count of that camera's array, which differ, and no container is written.
\<close>

theorem secondary_zero_frames_fatal:
  assumes "fs w p = Some (Parquet t)" "load_arrays f32 t = Inr (s, a)"
    and "makedirs (episode_dir bo p) w = Inr w1"
    and "fs w (container_path bo p) = None"
    and "0 < frame_count (decoded (fs w (video_path_of vr ''cam_right_high'' (episode_name_of p))))
       \<or> 0 < frame_count (decoded (fs w (video_path_of vr ''cam_left_high'' (episode_name_of p))))"
    and "frame_count (decoded (fs w (video_path_of vr ''cam_left_wrist'' (episode_name_of p)))) = 0
       \<or> frame_count (decoded (fs w (video_path_of vr ''cam_right_wrist'' (episode_name_of p)))) = 0"
    and "process_episode f32 p vr bo w = (w', r)"
  shows "0 < frame_count s
     \<and> (\<exists>imgs k x. stored_images vr (episode_name_of p) (fs w) = Some imgs
           \<and> (k, x) \<in> set imgs \<and> k \<in> set written_cameras
           \<and> frame_count x \<noteq> frame_count s
           \<and> r = Inl (AssertionError (StepMismatch k (frame_count s) (frame_count x))))
     \<and> fs w' = fs w1
     \<and> fs w' (container_path bo p) = None"
proof -
  let ?n = "episode_name_of p"
  note ex = process_episode_run_exact[OF assms(1-4), of vr]
  from assms(7) have w': "fs w' = fs (fst (process_episode f32 p vr bo w))"
    and r: "r = snd (process_episode f32 p vr bo w)" by simp_all
  note pos = frame_count_loaded(2)[OF assms(2)]
  from assms(5) obtain imgs where st: "stored_images vr ?n (fs w) = Some imgs"
    using stored_images_None[of vr ?n "fs w"] by (cases "stored_images vr ?n (fs w)") auto
  from stored_images_three[OF st] obtain x where
    imgs: "imgs = three_cams x (decoded (fs w (video_path_of vr ''cam_left_wrist'' ?n)))
                    (decoded (fs w (video_path_of vr ''cam_right_wrist'' ?n)))" by blast
  have "check_steps (frame_count s) imgs \<noteq> Inr ()"
    using assms(6) pos unfolding imgs by (auto simp: check_steps_Inr)
  then obtain e where e: "check_steps (frame_count s) imgs = Inl e"
    by (cases "check_steps (frame_count s) imgs") auto
  from check_steps_Inl[OF e] obtain k b where kb: "(k, b) \<in> set imgs" "frame_count b \<noteq> frame_count s"
    "e = AssertionError (StepMismatch k (frame_count s) (frame_count b))" by blast
  from kb(1) imgs have k: "k \<in> set written_cameras"
    by (auto simp: three_cams_def written_cameras_def)
  from e st ex w' r have res: "r = Inl e" "fs w' = fs w1" by simp_all
  from st kb k res(1) have "\<exists>imgs k x. stored_images vr ?n (fs w) = Some imgs
           \<and> (k, x) \<in> set imgs \<and> k \<in> set written_cameras
           \<and> frame_count x \<noteq> frame_count s
           \<and> r = Inl (AssertionError (StepMismatch k (frame_count s) (frame_count x)))"
    by blast
  with res(2) pos container_absent_after_mkdir[OF assms(3,4)] show ?thesis by simp
qed

theorem secondary_zero_frames_fatal_witness:
  "0 < frame_count (decoded (fs world_wrist_missing (video_path_of video_root ''cam_right_high'' ''ep1'')))
   \<and> frame_count (decoded (fs world_wrist_missing (video_path_of video_root ''cam_left_wrist'' ''ep1''))) = 0
   \<and> (\<exists>k j. snd (process_episode (\<lambda>x. x) ep1_path video_root base_output world_wrist_missing)
          = Inl (AssertionError (StepMismatch k 2 j)) \<and> k \<in> set written_cameras \<and> j \<noteq> 2)
   \<and> fs (fst (process_episode (\<lambda>x. x) ep1_path video_root base_output world_wrist_missing))
        (container_path base_output ep1_path) = None"
proof -
  let ?a = "process_episode (\<lambda>x. x) ep1_path video_root base_output world_wrist_missing"
  have h5: "0 < frame_count (decoded (fs world_wrist_missing (video_path_of video_root ''cam_right_high'' (episode_name_of ep1_path))))
       \<or> 0 < frame_count (decoded (fs world_wrist_missing (video_path_of video_root ''cam_left_high'' (episode_name_of ep1_path))))"
    and h6: "frame_count (decoded (fs world_wrist_missing (video_path_of video_root ''cam_left_wrist'' (episode_name_of ep1_path)))) = 0
       \<or> frame_count (decoded (fs world_wrist_missing (video_path_of video_root ''cam_right_wrist'' (episode_name_of ep1_path)))) = 0"
    and c: "0 < frame_count (decoded (fs world_wrist_missing (video_path_of video_root ''cam_right_high'' ''ep1'')))"
      "frame_count (decoded (fs world_wrist_missing (video_path_of video_root ''cam_left_wrist'' ''ep1''))) = 0"
    by (simp_all add: world_wrist_missing_def ep1_names video_paths decoded_None decoded_two_frames)
  have ra: "?a = (fst ?a, snd ?a)" by simp
  from secondary_zero_frames_fatal[OF world_wrist_missing_reach(1) load_good_table
         world_wrist_missing_reach(2,3) h5 h6 ra] c
  show ?thesis by (auto simp: container_path_neq_dir world_wrist_missing_reach(3))
qed

text \<open>
  C3, as stated, fails for the fourth camera: the state has two rows and the primary-left
  video has one frame, but the primary-right video decodes, so the primary-left video is
  never read, nothing is raised and the container is written.
\<close>

theorem fourth_camera_unchecked_counterexample:
  "frame_count good_state = 2
   \<and> frame_count (decoded (fs world_left_short (video_path_of video_root ''cam_left_high'' ''ep1''))) = 1
   \<and> snd (process_episode (\<lambda>x. x) ep1_path video_root base_output world_left_short) = Inr ()
   \<and> fs (fst (process_episode (\<lambda>x. x) ep1_path video_root base_output world_left_short))
        (container_path base_output ep1_path) = Some (Hdf5 ok_container)
   \<and> ds_data (obs_qpos ok_container) = good_state"
proof -
  have "frame_count (decoded (fs world_left_short (video_path_of video_root ''cam_left_high'' ''ep1''))) = 1"
    by (simp add: world_left_short_def video_paths decoded_one_frame frame_count_def)
  then show ?thesis
    by (simp add: run_world_left_short ok_container_def container_of_def)
qed

text \<open>
  C3, amended. An episode that reaches line 210 (its record file passes the checks,
  \<open>os.makedirs\<close> succeeds, no container exists and a primary video decodes) holds three
  camera arrays, under the keys
  \<open>cam_right_high\<close> (the primary-right frames or, after the fallback, the primary-left
  frames), \<open>cam_left_wrist\<close> and \<open>cam_right_wrist\<close>. If each of them has as many frames as
  the state has rows, the container is written; otherwise the AssertionError of line 213
  names a held camera whose count differs, with both counts, and no container is written.
  So in every container written by \<open>process_episode\<close> or by \<open>main\<close>, each camera dataset has
  as many frames as the state dataset has rows. A primary-left video that is not
  read is not checked.
\<close>

theorem step_count_checked:
  assumes "process_episode f32 p vr bo w = (w', r)"
  shows "(\<forall>t s a imgs w1.
            fs w p = Some (Parquet t) \<and> load_arrays f32 t = Inr (s, a)
          \<and> makedirs (episode_dir bo p) w = Inr w1
          \<and> fs w (container_path bo p) = None
          \<and> stored_images vr (episode_name_of p) (fs w) = Some imgs
          \<longrightarrow> map fst imgs = written_cameras
            \<and> (if list_all (\<lambda>(k, x). frame_count x = frame_count s) imgs
               then r = Inr ()
                 \<and> fs w' = (fs w1)(container_path bo p \<mapsto> Hdf5 (container_of \<lparr>qpos = s, action = a, images = imgs\<rparr>))
               else (\<exists>k x. (k, x) \<in> set imgs \<and> frame_count x \<noteq> frame_count s
                       \<and> r = Inl (AssertionError (StepMismatch k (frame_count s) (frame_count x))))
                 \<and> fs w' = fs w1
                 \<and> fs w' (container_path bo p) = None))
     \<and> (\<forall>q c. fs w' q = Some (Hdf5 c) \<and> fs w q \<noteq> Some (Hdf5 c)
          \<longrightarrow> list_all (\<lambda>(k, dset). frame_count (cam_data dset) = frame_count (ds_data (obs_qpos c)))
                (obs_images c))
     \<and> (\<forall>listing v v' r' q c. main f32 listing v = (v', r') \<and> fs v' q = Some (Hdf5 c) \<and> fs v q \<noteq> Some (Hdf5 c)
          \<longrightarrow> list_all (\<lambda>(k, dset). frame_count (cam_data dset) = frame_count (ds_data (obs_qpos c)))
                (obs_images c))"
proof (intro conjI allI impI)
  fix t s a imgs w1
  assume h: "fs w p = Some (Parquet t) \<and> load_arrays f32 t = Inr (s, a)
          \<and> makedirs (episode_dir bo p) w = Inr w1
          \<and> fs w (container_path bo p) = None
          \<and> stored_images vr (episode_name_of p) (fs w) = Some imgs"
  then have h1: "fs w p = Some (Parquet t)" and h2: "load_arrays f32 t = Inr (s, a)"
    and h3: "makedirs (episode_dir bo p) w = Inr w1"
    and h4: "fs w (container_path bo p) = None"
    and st: "stored_images vr (episode_name_of p) (fs w) = Some imgs" by simp_all
  from stored_images_three[OF st] show "map fst imgs = written_cameras"
    by (auto simp: three_cams_def written_cameras_def)
  note ex = process_episode_run_exact[OF h1 h2 h3 h4, of vr]
  from assms have w': "fs w' = fs (fst (process_episode f32 p vr bo w))"
    and r: "r = snd (process_episode f32 p vr bo w)" by simp_all
  show "if list_all (\<lambda>(k, x). frame_count x = frame_count s) imgs
        then r = Inr ()
          \<and> fs w' = (fs w1)(container_path bo p \<mapsto> Hdf5 (container_of \<lparr>qpos = s, action = a, images = imgs\<rparr>))
        else (\<exists>k x. (k, x) \<in> set imgs \<and> frame_count x \<noteq> frame_count s
                \<and> r = Inl (AssertionError (StepMismatch k (frame_count s) (frame_count x))))
          \<and> fs w' = fs w1
          \<and> fs w' (container_path bo p) = None"
  proof (cases "check_steps (frame_count s) imgs")
    case (Inl e)
    then have n: "\<not> list_all (\<lambda>(k, x). frame_count x = frame_count s) imgs"
      using check_steps_all[of "frame_count s" imgs] by simp
    from check_steps_Inl[OF Inl] obtain k b where kb: "(k, b) \<in> set imgs" "frame_count b \<noteq> frame_count s"
      "e = AssertionError (StepMismatch k (frame_count s) (frame_count b))" by blast
    with n Inl st ex w' r container_absent_after_mkdir[OF h3 h4] show ?thesis by auto
  next
    case (Inr u)
    then have "list_all (\<lambda>(k, x). frame_count x = frame_count s) imgs"
      using check_steps_all[of "frame_count s" imgs] by simp
    with Inr st ex w' r show ?thesis by simp
  qed
next
  fix q c
  assume "fs w' q = Some (Hdf5 c) \<and> fs w q \<noteq> Some (Hdf5 c)"
  with written_counts[OF assms] show "list_all (\<lambda>(k, dset). frame_count (cam_data dset) = frame_count (ds_data (obs_qpos c))) (obs_images c)"
    by blast
next
  fix listing v v' r' q c
  assume m: "main f32 listing v = (v', r') \<and> fs v' q = Some (Hdf5 c) \<and> fs v q \<noteq> Some (Hdf5 c)"
  then obtain p' vr' bo' w0 w1 r1 where "process_episode f32 p' vr' bo' w0 = (w1, r1)"
    "fs w1 q = Some (Hdf5 c)" "fs w0 q \<noteq> Some (Hdf5 c)"
    using main_written[of f32 listing v v' r' q c] by blast
  from written_counts[OF this] show "list_all (\<lambda>(k, dset). frame_count (cam_data dset) = frame_count (ds_data (obs_qpos c))) (obs_images c)" .
qed

theorem step_count_checked_witness:
  "stored_images video_root (episode_name_of ep1_path) (fs world_wrist_missing)
      = Some (three_cams two_decoded np_empty two_decoded)
   \<and> \<not> list_all (\<lambda>(k, x). frame_count x = frame_count good_state) (three_cams two_decoded np_empty two_decoded)
   \<and> snd (process_episode (\<lambda>x. x) ep1_path video_root base_output world_wrist_missing)
       = Inl (AssertionError (StepMismatch ''cam_left_wrist'' 2 0))
   \<and> fs (fst (process_episode (\<lambda>x. x) ep1_path video_root base_output world_wrist_missing))
        (container_path base_output ep1_path) = None
   \<and> main (\<lambda>x. x) [''ep1.parquet''] world_ok
       = process_episode (\<lambda>x. x) ep1_path video_root base_output world_ok
   \<and> fs (fst (main (\<lambda>x. x) [''ep1.parquet''] world_ok)) (container_path base_output ep1_path)
       = Some (Hdf5 ok_container)
   \<and> list_all (\<lambda>(k, dset). frame_count (cam_data dset) = frame_count (ds_data (obs_qpos ok_container)))
        (obs_images ok_container)"
proof -
  let ?a = "process_episode (\<lambda>x. x) ep1_path video_root base_output world_wrist_missing"
  let ?m = "main (\<lambda>x. x) [''ep1.parquet''] world_ok"
  have ra: "?a = (fst ?a, snd ?a)" by simp
  have st: "stored_images video_root (episode_name_of ep1_path) (fs world_wrist_missing)
      = Some (three_cams two_decoded np_empty two_decoded)"
    by (simp add: ep1_names stored_world_wrist_missing)
  have n: "\<not> list_all (\<lambda>(k, x). frame_count x = frame_count good_state) (three_cams two_decoded np_empty two_decoded)"
    by (simp add: three_cams_def)
  have m: "?m = process_episode (\<lambda>x. x) ep1_path video_root base_output world_ok"
    unfolding ep1_path_def by (rule main_single) simp
  have mw: "?m = (fst ?m, snd ?m)" by simp
  have mc: "fs (fst ?m) (container_path base_output ep1_path) = Some (Hdf5 ok_container)"
    unfolding m by (simp add: run_world_ok(1))
  have mn: "fs world_ok (container_path base_output ep1_path) \<noteq> Some (Hdf5 ok_container)"
    by (simp add: world_ok_reach(3))
  note sc = step_count_checked[OF ra]
  from sc[THEN conjunct1, rule_format, where t=good_table and s=good_state and a=good_action
         and imgs="three_cams two_decoded np_empty two_decoded"
         and ?w1.0="after_makedirs (episode_dir base_output ep1_path) world_wrist_missing"]
       world_wrist_missing_reach load_good_table st n
  have A: "snd ?a = Inl (AssertionError (StepMismatch ''cam_left_wrist'' 2 0))
      \<and> fs (fst ?a) (container_path base_output ep1_path) = None"
    by (simp add: run_world_wrist_missing(2) container_path_neq_dir)
  from sc[THEN conjunct2, THEN conjunct2, rule_format, of "[''ep1.parquet'']" world_ok "fst ?m" "snd ?m"
         "container_path base_output ep1_path" ok_container] mw mc mn
  have B: "list_all (\<lambda>(k, dset). frame_count (cam_data dset) = frame_count (ds_data (obs_qpos ok_container)))
        (obs_images ok_container)" by (simp del: main.simps)
  from A B st n m mc show ?thesis by (simp del: main.simps)
qed

subsection \<open>A second run of the batch\<close>

lemma process_episode_extends:
  assumes "process_episode f32 p vr bo w = (w', r)"
  shows "extends (fs w) (fs w')"
proof (cases rule: process_episode_cases[where w=w and p=p and ?f32.0=f32 and bo=bo and vr=vr])
  case (read_fail e)
  with assms show ?thesis by (simp add: extends_refl)
next
  case (load_fail t e)
  with assms show ?thesis by (simp add: extends_refl)
next
  case (mkdir_fail t s a e)
  with assms show ?thesis by (simp add: extends_refl)
next
  case (skip t s a w1)
  with assms have "fs w' = fs w1" by auto
  with makedirs_extends[OF skip(3)] show ?thesis by simp
next
  case (run t s a w1)
  note ex = process_episode_run_exact(1)[OF run, of vr]
  from assms have w': "fs w' = fs (fst (process_episode f32 p vr bo w))" by simp
  let ?F1 = "fs w1"
  have e1: "extends (fs w) ?F1" by (rule makedirs_extends[OF run(3)])
  have "fs w' = ?F1 \<or> (\<exists>c. fs w' = ?F1(container_path bo p \<mapsto> Hdf5 c))"
    unfolding w' ex by (auto split: option.splits sum.splits)
  then show ?thesis
  proof
    assume "fs w' = ?F1"
    with e1 show ?thesis by simp
  next
    assume "\<exists>c. fs w' = ?F1(container_path bo p \<mapsto> Hdf5 c)"
    then obtain c where c: "fs w' = ?F1(container_path bo p \<mapsto> Hdf5 c)" ..
    have "extends ?F1 (?F1(container_path bo p \<mapsto> Hdf5 c))"
      by (rule extends_write[where F="?F1" and out="container_path bo p",
            OF container_absent_after_mkdir[OF run(3,4)]])
    from extends_trans[OF e1 this] c show ?thesis by simp
  qed
qed

lemma main_extends:
  assumes "main f32 es w = (w', r)"
  shows "extends (fs w) (fs w')"
  using assms
proof (induction es arbitrary: w)
  case Nil
  then show ?case by (simp add: extends_refl)
next
  case (Cons e es)
  show ?case
  proof (cases "endswith e ''.parquet''")
    case False
    with Cons.prems have "main f32 es w = (w', r)" by simp
    then show ?thesis by (rule Cons.IH)
  next
    case True
    obtain w1 r1 where pe: "process_episode f32 (path_join data_dir e) video_root base_output w = (w1, r1)"
      by (cases "process_episode f32 (path_join data_dir e) video_root base_output w")
    note e1 = process_episode_extends[OF pe]
    show ?thesis
    proof (cases r1)
      case (Inl x)
      with pe True Cons.prems have "w' = w1" by simp
      with e1 show ?thesis by simp
    next
      case (Inr u)
      with pe True Cons.prems have "main f32 es w1 = (w', r)" by simp
      from extends_trans[OF e1 Cons.IH[OF this]] show ?thesis .
    qed
  qed
qed


text \<open>An episode that returned returns again, and changes nothing, in every later state.\<close>

lemma rerun_returns:
  assumes pe: "process_episode f32 p vr bo w = (v, Inr u)"
    and ext: "extends (fs v) (fs w2)"
  shows "fs (fst (process_episode f32 p vr bo w2)) = fs w2
     \<and> snd (process_episode f32 p vr bo w2) = Inr ()"
proof -
  let ?d = "episode_dir bo p" and ?o = "container_path bo p" and ?n = "episode_name_of p"
  have key: ?thesis
    if l: "load_arrays f32 t = Inr (s, a)"
      and v: "chain_ok (fs v) ?d" "fs v p = Some (Parquet t)"
      and none: "fs v ?o = None \<Longrightarrow> stored_images vr ?n (fs v) = None"
    for t s a
  proof -
    from extends_kept[OF ext v(2)] have t2: "fs w2 p = Some (Parquet t)" .
    from chain_ok_extends[OF ext v(1)] have "chain_ok (fs w2) ?d" .
    then have m2: "makedirs ?d w2 = Inr w2" by (rule makedirs_noop)
    show ?thesis
    proof (cases "fs w2 ?o = None")
      case False
      from process_episode_skip[OF t2 l m2 False, of vr] show ?thesis by simp
    next
      case True
      from extends_None[OF ext True] have "fs v ?o = None" .
      from none[OF this] stored_images_extends[OF ext, of vr ?n]
      have "stored_images vr ?n (fs w2) = None" by simp
      with process_episode_run_exact[OF t2 l m2 True, of vr] show ?thesis by simp
    qed
  qed
  show ?thesis
  proof (cases rule: process_episode_cases[where w=w and p=p and ?f32.0=f32 and bo=bo and vr=vr])
    case (read_fail e)
    with pe show ?thesis by simp
  next
    case (load_fail t e)
    with pe show ?thesis by simp
  next
    case (mkdir_fail t s a e)
    with pe show ?thesis by simp
  next
    case (skip t s a w1)
    with pe have fv: "fs v = fs w1" by auto
    note e1 = makedirs_extends[OF skip(3)]
    from extends_kept[OF e1 skip(1)] fv have v2: "fs v p = Some (Parquet t)" by simp
    from chain_ok_after[OF skip(3)] fv have v1: "chain_ok (fs v) ?d" by simp
    from skip(4) obtain y where "fs w ?o = Some y" by auto
    from extends_kept[OF e1 this] fv have "fs v ?o \<noteq> None" by simp
    then show ?thesis by (intro key[OF skip(2) v1 v2]) simp
  next
    case (run t s a w1)
    note ex = process_episode_run_exact[OF run, of vr]
    from pe have fv: "fs v = fs (fst (process_episode f32 p vr bo w))"
      and r: "snd (process_episode f32 p vr bo w) = Inr u" by simp_all
    note e1 = makedirs_extends[OF run(3)]
    note st = stored_images_extends[OF e1, of vr ?n]
    note p1 = extends_kept[OF e1 run(1)]
    show ?thesis
    proof (cases "stored_images vr ?n (fs w)")
      case None
      with ex(1) fv have f: "fs v = fs w1" by simp
      from f p1 have v2: "fs v p = Some (Parquet t)" by simp
      from f chain_ok_after[OF run(3)] have v1: "chain_ok (fs v) ?d" by simp
      from f st None have "stored_images vr ?n (fs v) = None" by simp
      then show ?thesis by (intro key[OF run(2) v1 v2]) simp
    next
      case (Some imgs)
      show ?thesis
      proof (cases "check_steps (frame_count s) imgs")
        case (Inl e)
        with Some ex(2) r show ?thesis by simp
      next
        case (Inr u')
        with Some ex(1) fv have f: "fs v = (fs w1)(?o
            \<mapsto> Hdf5 (container_of \<lparr>qpos = s, action = a, images = imgs\<rparr>))" by simp
        from run(1,4) have po: "p \<noteq> ?o" by auto
        from f po p1 have v2: "fs v p = Some (Parquet t)" by simp
        from chain_ok_write[OF chain_ok_after[OF run(3)]] f
        have v1: "chain_ok (fs v) ?d" by simp
        from f have "fs v ?o \<noteq> None" by simp
        then show ?thesis by (intro key[OF run(2) v1 v2]) simp
      qed
    qed
  qed
qed

text \<open>An episode that raised raises the same exception again in the state it left.\<close>

lemma rerun_raises:
  assumes pe: "process_episode f32 p vr bo w = (v, Inl x)"
    and eq: "fs w2 = fs v"
  shows "fs (fst (process_episode f32 p vr bo w2)) = fs w2
     \<and> snd (process_episode f32 p vr bo w2) = Inl x"
proof (cases rule: process_episode_cases[where w=w and p=p and ?f32.0=f32 and bo=bo and vr=vr])
  case (read_fail e)
  with pe have "v = w" "x = e" by simp_all
  with read_fail(1) eq have "read_parquet (fs w2 p) = Inl x" by simp
  from process_episode_read_fail[OF this] show ?thesis by simp
next
  case (load_fail t e)
  with pe have "v = w" "x = e" by simp_all
  with load_fail(1,2) eq have "fs w2 p = Some (Parquet t)" "load_arrays f32 t = Inl x" by simp_all
  from process_episode_load_fail[OF this] show ?thesis by simp
next
  case (mkdir_fail t s a e)
  with pe have vw: "v = w" and x: "x = e" by simp_all
  from vw mkdir_fail(1) eq have t2: "fs w2 p = Some (Parquet t)" by simp
  from vw eq have "fs w2 = fs w" by simp
  from makedirs_fs_only[OF this, of "episode_dir bo p"] mkdir_fail(3)
  have "makedirs (episode_dir bo p) w2 = Inl e"
    by (cases "makedirs (episode_dir bo p) w2") simp_all
  from process_episode_mkdir_fail[OF t2 mkdir_fail(2) this] x show ?thesis by simp
next
  case (skip t s a w1)
  with pe show ?thesis by simp
next
  case (run t s a w1)
  let ?d = "episode_dir bo p" and ?o = "container_path bo p" and ?n = "episode_name_of p"
  note ex = process_episode_run_exact[OF run, of vr]
  from pe have fv: "fs v = fs (fst (process_episode f32 p vr bo w))"
    and r: "snd (process_episode f32 p vr bo w) = Inl x" by simp_all
  from r ex(2) obtain imgs where st: "stored_images vr ?n (fs w) = Some imgs"
    and ch: "check_steps (frame_count s) imgs = Inl x"
    by (auto split: option.splits sum.splits)
  from st ch ex(1) fv eq have f2: "fs w2 = fs w1" by simp
  note e1 = makedirs_extends[OF run(3)]
  from extends_kept[OF e1 run(1)] f2 have t2: "fs w2 p = Some (Parquet t)" by simp
  from chain_ok_after[OF run(3)] f2 have "chain_ok (fs w2) ?d" by simp
  then have m2: "makedirs ?d w2 = Inr w2" by (rule makedirs_noop)
  from f2 container_absent_after_mkdir[OF run(3,4)] have o2: "fs w2 ?o = None" by simp
  from f2 stored_images_extends[OF e1, of vr ?n] st
  have st2: "stored_images vr ?n (fs w2) = Some imgs" by simp
  from process_episode_run_exact[OF t2 run(2) m2 o2, of vr] st2 ch show ?thesis by simp
qed

lemma main_rerun:
  assumes "main f32 es w = (w1, r1)" "fs w2 = fs w1"
  shows "fs (fst (main f32 es w2)) = fs w1 \<and> snd (main f32 es w2) = r1"
  using assms
proof (induction es arbitrary: w w2)
  case Nil
  then show ?case by auto
next
  case (Cons e es)
  show ?case
  proof (cases "endswith e ''.parquet''")
    case False
    with Cons.prems(1) have "main f32 es w = (w1, r1)" by simp
    from Cons.IH[OF this Cons.prems(2)] False show ?thesis by simp
  next
    case True
    let ?p = "path_join data_dir e"
    obtain v r where pe: "process_episode f32 ?p video_root base_output w = (v, r)"
      by (cases "process_episode f32 ?p video_root base_output w")
    obtain v2 r2 where pe2: "process_episode f32 ?p video_root base_output w2 = (v2, r2)"
      by (cases "process_episode f32 ?p video_root base_output w2")
    show ?thesis
    proof (cases r)
      case (Inl x)
      with pe True Cons.prems(1) have w1: "w1 = v" and r1: "r1 = Inl x" by simp_all
      from pe Inl have "process_episode f32 ?p video_root base_output w = (v, Inl x)" by simp
      from rerun_raises[OF this, of w2] Cons.prems(2) w1 pe2
      have "fs v2 = fs w1" "r2 = Inl x" by simp_all
      with True pe2 r1 show ?thesis by simp
    next
      case (Inr u)
      with pe True Cons.prems(1) have m: "main f32 es v = (w1, r1)" by simp
      from main_extends[OF m] Cons.prems(2) have ext: "extends (fs v) (fs w2)" by simp
      from pe Inr have "process_episode f32 ?p video_root base_output w = (v, Inr u)" by simp
      from rerun_returns[OF this ext] pe2 Cons.prems(2)
      have "fs v2 = fs w1" "r2 = Inr ()" by simp_all
      from Cons.IH[OF m this(1)] True pe2 \<open>r2 = Inr ()\<close> show ?thesis by simp
    qed
  qed
qed


subsection \<open>Claims about the batch driver\<close>

text \<open>
  C1, as stated, fails: the first listed record file has no \<open>action\<close> column; \<open>main\<close> ends
  with its KeyError and the second, valid, episode is never processed, although \<open>main\<close> over
  the second file alone writes its container.
\<close>

theorem batch_aborted_counterexample:
  "main (\<lambda>x. x) [''bad.parquet'', ''ep1.parquet''] world_batch
     = (world_batch, Inl (KeyError ''action'' [''timestamp'', ''observation.state'']))
   \<and> fs world_batch (container_path base_output ep1_path) = None
   \<and> fs (fst (main (\<lambda>x. x) [''ep1.parquet''] world_batch)) (container_path base_output ep1_path)
       = Some (Hdf5 ok_container)"
proof -
  have a: "process_episode (\<lambda>x. x) (path_join data_dir ''bad.parquet'') video_root base_output world_batch
     = (world_batch, Inl (KeyError ''action'' [''timestamp'', ''observation.state'']))"
    using run_world_batch_bad by (simp only: bad_path_def)
  have b: "main (\<lambda>x. x) [''ep1.parquet''] world_batch
     = process_episode (\<lambda>x. x) ep1_path video_root base_output world_batch"
    unfolding ep1_path_def by (rule main_single) simp
  have "main (\<lambda>x. x) [''bad.parquet'', ''ep1.parquet''] world_batch
     = (world_batch, Inl (KeyError ''action'' [''timestamp'', ''observation.state'']))"
    by (simp add: a)
  moreover have "fs (fst (main (\<lambda>x. x) [''ep1.parquet''] world_batch)) (container_path base_output ep1_path)
       = Some (Hdf5 ok_container)"
    unfolding b by (simp add: run_world_batch_ep1)
  ultimately show ?thesis using world_batch_reach(4) by (simp del: main.simps)
qed

text \<open>
  C1, amended. \<open>main\<close> handles no exception: when the episodes listed so far have returned and
  the next one raises, \<open>main\<close> ends with that exception in the state the episode left, and the
  rest of the listing is not processed; when the next one returns, \<open>main\<close> goes on with the
  rest.
\<close>

theorem first_exception_ends_batch:
  assumes "main f32 es1 w = (w1, Inr u)" "endswith e ''.parquet''"
    and "process_episode f32 (path_join data_dir e) video_root base_output w1 = (w2, r)"
  shows "main f32 (es1 @ e # es2) w
     = (case r of Inl x \<Rightarrow> (w2, Inl x) | Inr u' \<Rightarrow> main f32 es2 w2)"
  using assms by (cases r) (simp_all add: main_append)

theorem first_exception_ends_batch_witness:
  "main (\<lambda>x. x) [] world_batch = (world_batch, Inr ())
   \<and> endswith ''bad.parquet'' ''.parquet''
   \<and> process_episode (\<lambda>x. x) (path_join data_dir ''bad.parquet'') video_root base_output world_batch
       = (world_batch, Inl (KeyError ''action'' [''timestamp'', ''observation.state'']))
   \<and> main (\<lambda>x. x) ([] @ ''bad.parquet'' # [''ep1.parquet'']) world_batch
       = (world_batch, Inl (KeyError ''action'' [''timestamp'', ''observation.state'']))"
proof -
  have h1: "main (\<lambda>x. x) [] world_batch = (world_batch, Inr ())" by simp
  have h2: "endswith ''bad.parquet'' ''.parquet''" by simp
  have h3: "process_episode (\<lambda>x. x) (path_join data_dir ''bad.parquet'') video_root base_output world_batch
     = (world_batch, Inl (KeyError ''action'' [''timestamp'', ''observation.state'']))"
    using run_world_batch_bad by (simp only: bad_path_def)
  from first_exception_ends_batch[OF h1 h2 h3, of "[''ep1.parquet'']"] h1 h2 h3
  show ?thesis by (simp del: main.simps)
qed

text \<open>
  C5, as stated, fails for an episode whose container exists while its record file has no
  \<open>action\<close> column: the record file is read and checked before the existence check, so the
  episode is not skipped but raises the KeyError, in the first run and in every later one.
\<close>

theorem existing_container_not_skipped_counterexample:
  "fs world_stale (container_path base_output ep1_path) = Some (Hdf5 stale_container)
   \<and> main (\<lambda>x. x) [''ep1.parquet''] world_stale
       = (world_stale, Inl (KeyError ''action'' [''timestamp'', ''observation.state'']))"
proof -
  have "main (\<lambda>x. x) [''ep1.parquet''] world_stale
     = process_episode (\<lambda>x. x) ep1_path video_root base_output world_stale"
    unfolding ep1_path_def by (rule main_single) simp
  with run_world_stale world_stale_reach(2) show ?thesis by (simp del: main.simps)
qed


text \<open>
  C5, amended. A second run of \<open>main\<close> over the same listing, from the state the first run
  left, changes nothing in the file system and ends as the first run did. An episode whose
  container path exists and whose record file passes the column and shape checks is skipped
  when \<open>os.makedirs\<close> succeeds on its directory: \<open>process_episode\<close> prints the message of line
  171 and returns, the file system is the one \<open>os.makedirs\<close> left, and nothing is changed
  under the container path. The record file is read and checked before the existence check:
  an episode whose record file fails the column or shape checks raises instead of being
  skipped, and leaves the state unchanged.
\<close>

theorem second_run_changes_nothing:
  assumes "main f32 listing w = (w1, r1)" "main f32 listing w1 = (w2, r2)"
  shows "fs w2 = fs w1 \<and> r2 = r1
     \<and> (\<forall>p t s a u v r. fs w1 p = Some (Parquet t) \<and> load_arrays f32 t = Inr (s, a)
           \<and> makedirs (episode_dir bo p) w1 = Inr u
           \<and> fs w1 (container_path bo p) \<noteq> None
           \<and> process_episode f32 p vr bo w1 = (v, r)
          \<longrightarrow> r = Inr () \<and> stdout v = stdout w1 @ [AlreadyExists (container_path bo p)]
            \<and> fs v = fs u
            \<and> fs v (container_path bo p) = fs w1 (container_path bo p))
     \<and> (\<forall>p t e v r. fs w1 p = Some (Parquet t) \<and> load_arrays f32 t = Inl e
           \<and> fs w1 (container_path bo p) \<noteq> None
           \<and> process_episode f32 p vr bo w1 = (v, r)
          \<longrightarrow> v = w1 \<and> r = Inl e)"
proof (intro conjI allI impI)
  from main_rerun[OF assms(1), of w1] assms(2) show "fs w2 = fs w1" "r2 = r1" by simp_all
next
  fix p t s a u v r
  assume h: "fs w1 p = Some (Parquet t) \<and> load_arrays f32 t = Inr (s, a)
           \<and> makedirs (episode_dir bo p) w1 = Inr u
           \<and> fs w1 (container_path bo p) \<noteq> None
           \<and> process_episode f32 p vr bo w1 = (v, r)"
  then have h1: "fs w1 p = Some (Parquet t)" and h2: "load_arrays f32 t = Inr (s, a)"
    and h3: "makedirs (episode_dir bo p) w1 = Inr u"
    and h4: "fs w1 (container_path bo p) \<noteq> None"
    and h5: "process_episode f32 p vr bo w1 = (v, r)" by simp_all
  from process_episode_skip[OF h1 h2 h3 h4, of vr] h5
  have v: "v = print (AlreadyExists (container_path bo p)) u"
    and r: "r = Inr ()" by simp_all
  from r show "r = Inr ()" .
  from v makedirs_stdout[OF h3]
  show "stdout v = stdout w1 @ [AlreadyExists (container_path bo p)]" by simp
  from v show "fs v = fs u" by simp
  from v makedirs_made[OF h3, of "container_path bo p"] container_not_in_chain[of bo p]
  show "fs v (container_path bo p) = fs w1 (container_path bo p)" by simp
next
  fix p t e v r
  assume h: "fs w1 p = Some (Parquet t) \<and> load_arrays f32 t = Inl e
           \<and> fs w1 (container_path bo p) \<noteq> None
           \<and> process_episode f32 p vr bo w1 = (v, r)"
  then have h1: "fs w1 p = Some (Parquet t)" and h2: "load_arrays f32 t = Inl e"
    and h5: "process_episode f32 p vr bo w1 = (v, r)" by simp_all
  from process_episode_load_fail[OF h1 h2, of vr bo] h5 show "v = w1" "r = Inl e" by simp_all
qed

theorem second_run_changes_nothing_witness:
  "fs (fst (main (\<lambda>x. x) [''ep1.parquet''] world_ok)) (container_path base_output ep1_path)
      = Some (Hdf5 ok_container)
   \<and> fs (fst (main (\<lambda>x. x) [''ep1.parquet''] (fst (main (\<lambda>x. x) [''ep1.parquet''] world_ok))))
      = fs (fst (main (\<lambda>x. x) [''ep1.parquet''] world_ok))
   \<and> snd (main (\<lambda>x. x) [''ep1.parquet''] (fst (main (\<lambda>x. x) [''ep1.parquet''] world_ok))) = Inr ()
   \<and> snd (process_episode (\<lambda>x. x) ep1_path video_root base_output
            (fst (main (\<lambda>x. x) [''ep1.parquet''] world_ok))) = Inr ()
   \<and> stdout (fst (process_episode (\<lambda>x. x) ep1_path video_root base_output
            (fst (main (\<lambda>x. x) [''ep1.parquet''] world_ok))))
      = stdout (fst (main (\<lambda>x. x) [''ep1.parquet''] world_ok))
          @ [AlreadyExists (container_path base_output ep1_path)]
   \<and> makedirs (episode_dir base_output ep1_path) (fst (main (\<lambda>x. x) [''ep1.parquet''] world_ok))
      = Inr (fst (main (\<lambda>x. x) [''ep1.parquet''] world_ok))
   \<and> main (\<lambda>x. x) [''ep1.parquet''] world_stale
      = (world_stale, Inl (KeyError ''action'' [''timestamp'', ''observation.state'']))
   \<and> fs world_stale (container_path base_output ep1_path) \<noteq> None
   \<and> load_arrays (\<lambda>x. x) no_action_table
      = Inl (KeyError ''action'' [''timestamp'', ''observation.state''])
   \<and> process_episode (\<lambda>x. x) ep1_path video_root base_output world_stale
      = (world_stale, Inl (KeyError ''action'' [''timestamp'', ''observation.state'']))"
proof -
  let ?d = "episode_dir base_output ep1_path" and ?o = "container_path base_output ep1_path"
  let ?m1 = "main (\<lambda>x. x) [''ep1.parquet''] world_ok"
  let ?m2 = "main (\<lambda>x. x) [''ep1.parquet''] (fst ?m1)"
  let ?pe = "process_episode (\<lambda>x. x) ep1_path video_root base_output (fst ?m1)"
  let ?k = "Inl (KeyError ''action'' [''timestamp'', ''observation.state'']) :: exn + unit"
  let ?ps = "process_episode (\<lambda>x. x) ep1_path video_root base_output world_stale"
  have m: "?m1 = process_episode (\<lambda>x. x) ep1_path video_root base_output world_ok"
    unfolding ep1_path_def by (rule main_single) simp
  have f1: "fs (fst ?m1) = (fs (after_makedirs ?d world_ok))(?o \<mapsto> Hdf5 ok_container)"
    and s1: "snd ?m1 = Inr ()"
    unfolding m by (simp_all add: run_world_ok)
  have a1: "?m1 = (fst ?m1, snd ?m1)" and a2: "?m2 = (fst ?m2, snd ?m2)"
    and a3: "?pe = (fst ?pe, snd ?pe)" and a4: "?ps = (fst ?ps, snd ?ps)" by simp_all
  have c: "fs (fst ?m1) ?o = Some (Hdf5 ok_container)"
    unfolding f1 by simp
  have "fs (fst ?m1) ep1_path = ((fs (after_makedirs ?d world_ok))(?o \<mapsto> Hdf5 ok_container)) ep1_path"
    by (simp only: f1)
  also have "\<dots> = Some (Parquet good_table)"
    unfolding ep1_names
    by (simp add: fs_after_makedirs ep1_ancestors world_ok_def ep1_names video_paths)
  finally have p: "fs (fst ?m1) ep1_path = Some (Parquet good_table)" .
  have "chain_ok (fs (fst ?m1)) ?d"
    unfolding f1 by (intro chain_ok_write chain_ok_after[OF world_ok_reach(2)])
  then have d: "makedirs ?d (fst ?m1) = Inr (fst ?m1)" by (rule makedirs_noop)
  have ms: "main (\<lambda>x. x) [''ep1.parquet''] world_stale = ?ps"
    unfolding ep1_path_def by (rule main_single) simp
  have b1: "main (\<lambda>x. x) [''ep1.parquet''] world_stale = (world_stale, ?k)"
    unfolding ms by (rule run_world_stale)
  have co: "fs world_stale ?o \<noteq> None" by (simp add: world_stale_reach(2))
  note sr = second_run_changes_nothing[OF a1 a2, of base_output video_root]
  from sr have A: "fs (fst ?m2) = fs (fst ?m1)" and B: "snd ?m2 = snd ?m1" by blast+
  from sr[THEN conjunct2, THEN conjunct2, THEN conjunct1, rule_format,
          where p=ep1_path and t=good_table and s=good_state and a=good_action
            and u="fst ?m1" and v="fst ?pe" and r="snd ?pe"]
       p load_good_table d c a3
  have C: "snd ?pe = Inr () \<and> stdout (fst ?pe) = stdout (fst ?m1) @ [AlreadyExists ?o]"
    by (simp del: main.simps)
  note sr2 = second_run_changes_nothing[OF b1 b1, of base_output video_root]
  from sr2[THEN conjunct2, THEN conjunct2, THEN conjunct2, rule_format,
          where p=ep1_path and t=no_action_table and v="fst ?ps" and r="snd ?ps"
            and e="KeyError ''action'' [''timestamp'', ''observation.state'']"]
       world_stale_reach(1) load_no_action_table co a4
  have D: "fst ?ps = world_stale \<and> snd ?ps = ?k"
    by (simp del: main.simps)
  then have D': "?ps = (world_stale, ?k)" by (simp add: prod_eq_iff)
  from A B C c s1 d b1 co load_no_action_table D' show ?thesis by (simp del: main.simps)
qed


end
